theory Spec2Isabelle
  imports Complex_Main
begin

section \<open>Geometry objects built through the drawing module\<close>

text \<open>
  Both components build their geometry by calling the host's drawing module
  (\<^verbatim>\<open>draw.Point\<close>, \<^verbatim>\<open>draw.Polygon\<close>, \<^verbatim>\<open>draw.LineString\<close>, \<^verbatim>\<open>.buffer\<close>, \<^verbatim>\<open>.boundary\<close>,
  \<^verbatim>\<open>.union\<close>, \<^verbatim>\<open>.intersection\<close>, \<^verbatim>\<open>draw.subtract\<close>, \<^verbatim>\<open>draw.rotate\<close>, \<^verbatim>\<open>draw.translate\<close>).
  A geometry object is represented by the expression that builds it, one constructor
  per call. Lengths are real numbers (the source computes in floating point; rounding
  is not modelled).

  \<^verbatim>\<open>Buffer s d resolution cap_style join_style\<close> is \<^verbatim>\<open>s.buffer(d, resolution, cap_style, join_style)\<close>
  with the numeric style codes of the source (1 = round, 2 = flat or mitre).
\<close>

type_synonym point = "real \<times> real"

datatype shape =
    Point real real
  | Polygon "point list"
  | LineString "point list"
  | Buffer shape real nat nat nat
  | Boundary shape
  | Union_shape shape shape
  | Intersection shape shape
  | Subtract shape shape
  | Rotate shape real point
  | Translate shape real real

text \<open>\<^verbatim>\<open>s.buffer(d)\<close> with the library defaults: resolution 16, round caps, round joins.\<close>

definition buffer :: "shape \<Rightarrow> real \<Rightarrow> shape" where
  "buffer s d = Buffer s d 16 1 1"

text \<open>
  Modelled from the spec: \<^verbatim>\<open>draw.rectangle(w, h)\<close> is a helper of the host's drawing
  module and is not among the source files. The spec calls it the "straight rectangle";
  the source uses it for the "small squares to launch the junction from" and the coupling
  arm, each moved into place afterwards, so it is the \<open>w\<close> by \<open>h\<close> box centred at the
  origin, with the corner order of the library's box constructor.
\<close>

definition rectangle :: "real \<Rightarrow> real \<Rightarrow> shape" where
  "rectangle w h = Polygon [(w / 2, - (h / 2)), (w / 2, h / 2), (- (w / 2), h / 2), (- (w / 2), - (h / 2))]"

text \<open>\<^verbatim>\<open>draw.rotate\<close> and \<^verbatim>\<open>draw.translate\<close> applied to a Python list map over it.\<close>

definition rotate_all :: "shape list \<Rightarrow> real \<Rightarrow> point \<Rightarrow> shape list" where
  "rotate_all objs a origin = map (\<lambda>s. Rotate s a origin) objs"

definition translate_all :: "shape list \<Rightarrow> real \<Rightarrow> real \<Rightarrow> shape list" where
  "translate_all objs xoff yoff = map (\<lambda>s. Translate s xoff yoff) objs"

subsection \<open>The point set of a geometry object\<close>

text \<open>
  Modelled from the spec: the operations of the drawing module are not among the source
  files; the spec names them ("buffering circles, boolean polygon operations,
  rotation/translation") and leaves the geometry library out of scope. They are given
  their ideal meaning on point sets: a buffered point is a closed disc, a
  buffer with round joins is the set of points within the distance of the shape (an
  erosion when the distance is negative), the boolean operations are those of sets, and
  the resolution (how many segments approximate a quarter circle) is ignored.
\<close>

definition d2 :: "point \<Rightarrow> point \<Rightarrow> real" where
  "d2 p q = (fst p - fst q)\<^sup>2 + (snd p - snd q)\<^sup>2"

definition dilate :: "point set \<Rightarrow> real \<Rightarrow> point set" where
  "dilate S d = (if 0 \<le> d then {p. \<exists>q\<in>S. d2 p q \<le> d\<^sup>2}
                 else {p. \<forall>q. d2 p q \<le> d\<^sup>2 \<longrightarrow> q \<in> S})"

definition frontier_of :: "point set \<Rightarrow> point set" where
  "frontier_of S = {p. \<forall>e>0. (\<exists>q\<in>S. d2 p q < e) \<and> (\<exists>q. q \<notin> S \<and> d2 p q < e)}"

text \<open>
  A polygon is given by the coordinates of its outer ring, closed implicitly. A point
  belongs to it when it lies on an edge, or when a ray going up from it crosses an odd
  number of edges (each edge counted on a half-open range of abscissae, so that a vertex
  is never counted twice).
\<close>

definition ring_edges :: "point list \<Rightarrow> (point \<times> point) list" where
  "ring_edges ps = zip ps (rotate1 ps)"

fun on_segment :: "point \<Rightarrow> point \<times> point \<Rightarrow> bool" where
  "on_segment (x, y) ((ax, ay), (bx, by)) =
     ((bx - ax) * (y - ay) = (by - ay) * (x - ax)
      \<and> min ax bx \<le> x \<and> x \<le> max ax bx \<and> min ay by \<le> y \<and> y \<le> max ay by)"

fun crosses :: "point \<Rightarrow> point \<times> point \<Rightarrow> bool" where
  "crosses (x, y) ((ax, ay), (bx, by)) =
     (((ax \<le> x \<and> x < bx) \<or> (bx \<le> x \<and> x < ax))
      \<and> y < ay + (x - ax) * (by - ay) / (bx - ax))"

definition in_polygon :: "point \<Rightarrow> point list \<Rightarrow> bool" where
  "in_polygon p ps =
     (list_ex (on_segment p) (ring_edges ps) \<or> odd (length (filter (crosses p) (ring_edges ps))))"

text \<open>
  A polygon may be built from any coordinates, but the library raises a topology
  exception when it is asked to intersect with a polygon whose ring crosses itself: two of
  its edges cross when the ends of each lie strictly on opposite sides of the other.
\<close>

definition orient :: "point \<Rightarrow> point \<Rightarrow> point \<Rightarrow> real" where
  "orient a b c = (fst b - fst a) * (snd c - snd a) - (snd b - snd a) * (fst c - fst a)"

definition properly_cross :: "point \<times> point \<Rightarrow> point \<times> point \<Rightarrow> bool" where
  "properly_cross e f \<longleftrightarrow>
     orient (fst e) (snd e) (fst f) * orient (fst e) (snd e) (snd f) < 0
     \<and> orient (fst f) (snd f) (fst e) * orient (fst f) (snd f) (snd e) < 0"

definition ring_crosses :: "point list \<Rightarrow> bool" where
  "ring_crosses ps = list_ex (\<lambda>e. list_ex (properly_cross e) (ring_edges ps)) (ring_edges ps)"

definition in_linestring :: "point \<Rightarrow> point list \<Rightarrow> bool" where
  "in_linestring p ps = list_ex (on_segment p) (zip ps (tl ps))"

text \<open>
  \<^verbatim>\<open>draw.rotate(s, angle, origin)\<close> turns by \<open>angle\<close> degrees counter-clockwise about
  \<open>origin\<close>; \<^verbatim>\<open>draw.translate(s, xoff, yoff)\<close> shifts.
\<close>

fun rotate_pt :: "real \<Rightarrow> point \<Rightarrow> point \<Rightarrow> point" where
  "rotate_pt a (ox, oy) (x, y) =
     (ox + (x - ox) * cos (a * pi / 180) - (y - oy) * sin (a * pi / 180),
      oy + (x - ox) * sin (a * pi / 180) + (y - oy) * cos (a * pi / 180))"

fun translate_pt :: "real \<Rightarrow> real \<Rightarrow> point \<Rightarrow> point" where
  "translate_pt xoff yoff (x, y) = (x + xoff, y + yoff)"

text \<open>The dimension of a geometry object: 0 for points, 1 for lines, 2 for areas.\<close>

fun dim :: "shape \<Rightarrow> nat" where
  "dim (Point x y) = 0"
| "dim (Polygon ps) = 2"
| "dim (LineString ps) = 1"
| "dim (Buffer s d res cap join) = 2"
| "dim (Boundary s) = dim s - 1"
| "dim (Union_shape a b) = max (dim a) (dim b)"
| "dim (Intersection a b) = min (dim a) (dim b)"
| "dim (Subtract a b) = dim a"
| "dim (Rotate s a origin) = dim s"
| "dim (Translate s xoff yoff) = dim s"

text \<open>
  The cap style only matters at the ends of a line, the join style at corners. A buffer
  with round joins, taken of an area or with round caps, is the dilation above. Every
  other styled buffer (the flat-capped stroke of the claw arc is the one the source
  uses) is left to the parameter \<open>sb\<close>, about which nothing is assumed.
\<close>

type_synonym styled_buffer = "nat \<Rightarrow> nat \<Rightarrow> point set \<Rightarrow> real \<Rightarrow> point set"

fun pts :: "styled_buffer \<Rightarrow> shape \<Rightarrow> point set" where
  "pts sb (Point x y) = {(x, y)}"
| "pts sb (Polygon ps) = {p. in_polygon p ps}"
| "pts sb (LineString ps) = {p. in_linestring p ps}"
| "pts sb (Buffer s d res cap join) =
     (if join = 1 \<and> (cap = 1 \<or> dim s \<noteq> 1) then dilate (pts sb s) d
      else sb cap join (pts sb s) d)"
| "pts sb (Boundary s) = frontier_of (pts sb s)"
| "pts sb (Union_shape a b) = pts sb a \<union> pts sb b"
| "pts sb (Intersection a b) = pts sb a \<inter> pts sb b"
| "pts sb (Subtract a b) = pts sb a - pts sb b"
| "pts sb (Rotate s a origin) = rotate_pt a origin ` pts sb s"
| "pts sb (Translate s xoff yoff) = translate_pt xoff yoff ` pts sb s"

text \<open>
  \<^verbatim>\<open>s.coords\<close>: the coordinate sequence of a point or a line, moved along with it. The
  library raises \<^verbatim>\<open>NotImplementedError\<close> for every other geometry (\<open>None\<close>).
\<close>

fun coords :: "shape \<Rightarrow> point list option" where
  "coords (Point x y) = Some [(x, y)]"
| "coords (LineString ps) = Some ps"
| "coords (Rotate s a origin) = map_option (map (rotate_pt a origin)) (coords s)"
| "coords (Translate s xoff yoff) = map_option (map (translate_pt xoff yoff)) (coords s)"
| "coords s = None"

section \<open>The host: options, geometry tables and pins\<close>

datatype error = ZeroDivisionError | GEOSException | NotImplementedError | KeyError | ValueError

record qgeom =
  qg_kind :: string
  qg_name :: string
  qg_shape :: shape
  qg_layer :: int
  qg_subtract :: bool
  qg_width :: "real option"

record pin =
  pin_name :: string
  pin_points :: "point list"
  pin_width :: real

record host =
  qgeometry :: "qgeom list"
  pins :: "pin list"

definition empty_host :: host where
  "empty_host = \<lparr>qgeometry = [], pins = []\<rparr>"

text \<open>
  Modelled from the spec: the host (the component base class and the design) is not among
  the source files; the spec names its calls ("add geometry of kind {poly, junction}, keyed by
  name, with layer and additive/subtractive flag", "add pin of name, anchor line, width"). Its record here is the sequence of the registrations it
  received from a pass, in the order of the calls:
  \<^verbatim>\<open>self.add_qgeometry(kind, {name: shape}, layer, subtract, width)\<close> and
  \<^verbatim>\<open>self.add_pin(name, line.coords, width)\<close>, each with the name the pass gave. What the
  host then does with a registration (it keeps pins in a dictionary, where a pin of the
  same name replaces the earlier one, and stores a geometry of several parts part by part
  under numbered names) is not modelled: an entry stands for the whole geometry passed
  under its name. Where the pass gives no layer, the host takes the layer option.
\<close>

definition add_qgeometry :: "string \<Rightarrow> string \<Rightarrow> shape \<Rightarrow> int \<Rightarrow> bool \<Rightarrow> real option \<Rightarrow> host \<Rightarrow> host" where
  "add_qgeometry k n s l sub w h =
     h\<lparr>qgeometry := qgeometry h @
        [\<lparr>qg_kind = k, qg_name = n, qg_shape = s, qg_layer = l, qg_subtract = sub, qg_width = w\<rparr>]\<rparr>"

definition add_pin :: "string \<Rightarrow> shape \<Rightarrow> real \<Rightarrow> host \<Rightarrow> error + host" where
  "add_pin n line w h =
     (case coords line of
        None \<Rightarrow> Inl NotImplementedError
      | Some cs \<Rightarrow> Inr (h\<lparr>pins := pins h @ [\<lparr>pin_name = n, pin_points = cs, pin_width = w\<rparr>]\<rparr>))"

section \<open>TurtleQubit\<close>

record pad_options =
  res_arc :: real
  res_dist :: real
  res_ext :: real
  res_angle :: real
  res_claw_width :: real
  res_claw_rounding :: real
  res_s :: real
  res_g :: bool
  res_g_s :: real
  cpw_width :: real
  cpw_gap :: real

text \<open>Where a component sits on the chip, and on which layer: options both components have.\<close>

record placed =
  pos_x :: real
  pos_y :: real
  layer :: int

record turtle_options = placed +
  rad_i :: real
  gap :: real
  jj_w :: real
  rotation :: real
  connection_pads :: "(string \<times> pad_options) list"

text \<open>The default options, in millimetres (the unit the host parses lengths into).\<close>

definition default_connection_pad :: pad_options where
  "default_connection_pad =
     \<lparr>res_arc = 50 / 1000, res_dist = 25 / 1000, res_ext = 25 / 1000, res_angle = 90,
      res_claw_width = 10 / 1000, res_claw_rounding = 2 / 1000, res_s = 6 / 1000,
      res_g = False, res_g_s = 2 / 1000, cpw_width = 12 / 1000, cpw_gap = 12 / 1000\<rparr>"

definition default_options :: turtle_options where
  "default_options =
     \<lparr>pos_x = 1, pos_y = 1, layer = 1, rad_i = 125 / 1000, gap = 25 / 1000, jj_w = 10 / 1000,
      rotation = 0, connection_pads = []\<rparr>"

subsection \<open>make_turtle\<close>

text \<open>The island, the pocket and the junction line in the local frame (lines 80 to 99).\<close>

definition turtle_local :: "turtle_options \<Rightarrow> string \<Rightarrow> shape \<times> shape \<times> shape" where
  "turtle_local p render_mode =
     (let inner_pad = buffer (Point 0 0) (rad_i p);
          pocket = buffer (Point 0 0) (rad_i p + gap p);
          (inner_pad, pocket) =
            (if render_mode = ''simulate'' then
               let jj_port = rectangle (jj_w p) (1 / 1000);
                   jj_p = jj_port;
                   jj_p1 = Translate jj_p 0 (- (rad_i p));
                   jj_p2 = Translate jj_p 0 (- (rad_i p + gap p))
               in (Union_shape inner_pad jj_p1, Subtract pocket jj_p2)
             else (inner_pad, pocket));
          rect_jj = LineString [(0, - (rad_i p + gap p - 0.5 / 1000)),
                                (0, - (rad_i p + 0.5 / 1000))]
      in (inner_pad, pocket, rect_jj))"

text \<open>
  Rotating, translating and registering (lines 104 to 118). Unpacking a list of the
  wrong length raises \<^verbatim>\<open>ValueError\<close> in Python; the lists here always have the
  right length.
\<close>

definition make_turtle :: "turtle_options \<Rightarrow> string \<Rightarrow> host \<Rightarrow> error + host" where
  "make_turtle p render_mode h =
     (let (inner_pad, pocket, rect_jj) = turtle_local p render_mode;
          objects = [inner_pad, pocket, rect_jj];
          objects = rotate_all objects (rotation p) (0, 0);
          objects = translate_all objects (pos_x p) (pos_y p)
      in case objects of
           [inner_pad, pocket, rect_jj] \<Rightarrow>
             Inr (add_qgeometry ''junction'' ''rect_jj'' rect_jj (layer p) False (Some (jj_w p))
                   (add_qgeometry ''poly'' ''Pocket'' pocket 1 True None
                     (add_qgeometry ''poly'' ''Qubit'' inner_pad 1 False None h)))
         | _ \<Rightarrow> Inl ValueError)"

subsection \<open>make_claw\<close>

text \<open>Lines 130 and 131. The division raises when \<open>r\<close> is zero; make_claw checks it.\<close>

definition claw_r :: "turtle_options \<Rightarrow> pad_options \<Rightarrow> real" where
  "claw_r p pc = rad_i p + res_dist pc + res_claw_width pc"

definition claw_theta :: "turtle_options \<Rightarrow> pad_options \<Rightarrow> real" where
  "claw_theta p pc = res_arc pc / claw_r p pc"

text \<open>The radius of the circle whose boundary the claw arc is cut from (lines 126 to 129).\<close>

definition claw_centre_radius :: "turtle_options \<Rightarrow> pad_options \<Rightarrow> real" where
  "claw_centre_radius p pc = rad_i p + res_dist pc + 0.5 * res_claw_width pc"

text \<open>The coordinates of the wedge that cuts the arc out of the circle (lines 132 to 136).\<close>

definition claw_wedge :: "turtle_options \<Rightarrow> pad_options \<Rightarrow> point list" where
  "claw_wedge p pc =
     (let r = claw_r p pc;
          theta = claw_theta p pc;
          res_angle_rad = res_angle pc * pi / 180
      in [(0, 0),
          (r * cos (- pi / 2 + res_angle_rad - theta / 2), r * sin (- pi / 2 + res_angle_rad - theta / 2)),
          ((r + res_ext pc) * cos (- pi / 2 + res_angle_rad), (r + res_ext pc) * sin (pi / 2 + res_angle_rad)),
          (r * cos (- pi / 2 + res_angle_rad + theta / 2), r * sin (- pi / 2 + res_angle_rad + theta / 2))])"

text \<open>The stroked claw ring, before rounding (lines 126 to 138).\<close>

definition claw_stroke :: "turtle_options \<Rightarrow> pad_options \<Rightarrow> shape" where
  "claw_stroke p pc =
     (let claw_rad = Boundary (buffer (Point 0 0) (claw_centre_radius p pc));
          claw_inter = Polygon (claw_wedge p pc);
          claw_rad = Intersection claw_rad claw_inter
      in Buffer claw_rad (0.5 * res_claw_width pc) 64 2 1)"

text \<open>The coupling arm and the port line, moved into place (lines 140 to 148).\<close>

definition claw_arm :: "turtle_options \<Rightarrow> pad_options \<Rightarrow> error + shape \<times> shape" where
  "claw_arm p pc =
     (let cpw_arm = rectangle (cpw_width pc) (res_ext pc + 0.5 * res_claw_width pc);
          port_line = LineString
            [(cpw_width pc / 2, - (res_ext pc + res_claw_width pc / 2) / 2),
             (- cpw_width pc / 2, - (res_ext pc + res_claw_width pc / 2) / 2)];
          polys = [cpw_arm, port_line];
          polys = translate_all polys 0
                    (- (rad_i p + res_dist pc + 0.5 * (res_claw_width pc + res_ext pc)));
          polys = rotate_all polys (res_angle pc) (0, 0)
      in case polys of [cpw_arm, port_line] \<Rightarrow> Inr (cpw_arm, port_line) | _ \<Rightarrow> Inl ValueError)"

text \<open>The gap around the arm (lines 153 to 156).\<close>

definition claw_cpw_gap :: "turtle_options \<Rightarrow> pad_options \<Rightarrow> shape" where
  "claw_cpw_gap p pc =
     (let cpw_gap_rect = rectangle (cpw_width pc + 2 * cpw_gap pc) (res_ext pc + 0.5 * res_claw_width pc);
          cpw_gap_rect = Translate cpw_gap_rect 0
                    (- (rad_i p + res_dist pc + 0.5 * (res_claw_width pc + res_ext pc)))
      in Rotate cpw_gap_rect (res_angle pc) (0, 0))"

text \<open>Rounding the claw (lines 159 to 161).\<close>

definition round_claw :: "real \<Rightarrow> shape \<Rightarrow> shape" where
  "round_claw rounding res_claw =
     (let res_claw_cutout = Subtract (buffer res_claw rounding) res_claw;
          res_claw_cutout_buffer = buffer res_claw_cutout rounding
      in Intersection res_claw
           (buffer (Subtract (buffer res_claw (2 * rounding)) res_claw_cutout_buffer) rounding))"

text \<open>
  The coupler, its gap and the port line in the local frame (lines 126 to 164). The
  division of line 131 raises when \<open>r\<close> is zero, and the intersection of line 137 raises
  when the wedge crosses itself. The third corner of the wedge takes its ordinate from
  \<open>sin (pi / 2 + res_angle)\<close>, the others from \<open>sin (- pi / 2 + res_angle \<dots>)\<close>: it is the
  mirror image of the point on the claw's axis unless the angle is 90 or 270 degrees, and
  the wedge then crosses itself for many angles (45 degrees is one).
\<close>

definition claw_local :: "turtle_options \<Rightarrow> pad_options \<Rightarrow> error + shape \<times> shape \<times> shape" where
  "claw_local p pc =
     (if claw_r p pc = 0 then Inl ZeroDivisionError
      else if ring_crosses (claw_wedge p pc) then Inl GEOSException
      else
        let res_claw = claw_stroke p pc
        in case claw_arm p pc of
             Inl e \<Rightarrow> Inl e
           | Inr (cpw_arm, port_line) \<Rightarrow>
               let claw_gap = Buffer res_claw (res_s pc) 64 2 1;
                   cpw_gap_rect = claw_cpw_gap p pc;
                   res_claw = round_claw (res_claw_rounding pc) res_claw;
                   res_claw = Union_shape res_claw cpw_arm;
                   res_gap = Union_shape claw_gap cpw_gap_rect
               in Inr (res_claw, res_gap, port_line))"

text \<open>Rotating, translating and registering a coupler (lines 167 to 178 and 222 to 233).\<close>

definition register_claw :: "turtle_options \<Rightarrow> string \<Rightarrow> pad_options \<Rightarrow> shape \<times> shape \<times> shape \<Rightarrow> host \<Rightarrow> error + host" where
  "register_claw p name pc local h =
     (let (res_claw, res_gap, port_line) = local;
          objects = [res_claw, res_gap, port_line];
          objects = rotate_all objects (rotation p) (0, 0);
          objects = translate_all objects (pos_x p) (pos_y p)
      in case objects of
           [res_claw, res_gap, port_line] \<Rightarrow>
             add_pin name port_line (cpw_width pc)
               (add_qgeometry ''poly'' ''poly5'' res_gap 1 True None
                 (add_qgeometry ''poly'' ''res_claw'' res_claw 1 False None h))
         | _ \<Rightarrow> Inl ValueError)"

definition make_claw :: "turtle_options \<Rightarrow> string \<Rightarrow> pad_options \<Rightarrow> host \<Rightarrow> error + host" where
  "make_claw p name pc h =
     (case claw_local p pc of Inl e \<Rightarrow> Inl e | Inr local \<Rightarrow> register_claw p name pc local h)"

subsection \<open>make_grounded_claw\<close>

text \<open>Lines 188 and 189.\<close>

definition grounded_r :: "turtle_options \<Rightarrow> pad_options \<Rightarrow> real" where
  "grounded_r p pc = rad_i p + res_dist pc + res_claw_width pc + res_s pc"

definition grounded_theta :: "turtle_options \<Rightarrow> pad_options \<Rightarrow> real" where
  "grounded_theta p pc = res_arc pc / grounded_r p pc"

text \<open>Lines 184 to 187.\<close>

definition grounded_centre_radius :: "turtle_options \<Rightarrow> pad_options \<Rightarrow> real" where
  "grounded_centre_radius p pc =
     rad_i p + res_dist pc + 0.5 * res_claw_width pc + res_s pc + res_g_s pc"

text \<open>The coordinates of the wedge of the grounded variant (lines 190 to 194).\<close>

definition grounded_wedge :: "turtle_options \<Rightarrow> pad_options \<Rightarrow> point list" where
  "grounded_wedge p pc =
     (let r = grounded_r p pc;
          theta = grounded_theta p pc;
          res_angle_rad = res_angle pc * pi / 180
      in [(0, 0),
          (r * cos (- pi / 2 + res_angle_rad - theta / 2), r * sin (- pi / 2 + res_angle_rad - theta / 2)),
          ((r + res_ext pc) * cos (- pi / 2 + res_angle_rad), (r + res_ext pc) * sin (pi / 2 + res_angle_rad)),
          (r * cos (- pi / 2 + res_angle_rad + theta / 2), r * sin (- pi / 2 + res_angle_rad + theta / 2))])"

text \<open>The stroked claw ring of the grounded variant (lines 184 to 196).\<close>

definition grounded_stroke :: "turtle_options \<Rightarrow> pad_options \<Rightarrow> shape" where
  "grounded_stroke p pc =
     (let claw_rad = Boundary (buffer (Point 0 0) (grounded_centre_radius p pc));
          claw_inter = Polygon (grounded_wedge p pc);
          claw_rad = Intersection claw_rad claw_inter
      in Buffer claw_rad (0.5 * res_claw_width pc) 64 2 1)"

text \<open>The coupling arm and the port line of the grounded variant (lines 198 to 208).\<close>

definition grounded_arm :: "turtle_options \<Rightarrow> pad_options \<Rightarrow> error + shape \<times> shape" where
  "grounded_arm p pc =
     (let cpw_arm = rectangle (cpw_width pc) (res_ext pc + 0.5 * res_claw_width pc);
          end_of_coupler = - (res_ext pc + res_claw_width pc / 2) / 2;
          port_line = LineString
            [(cpw_width pc / 2, end_of_coupler), (- cpw_width pc / 2, end_of_coupler)];
          polys = [cpw_arm, port_line];
          polys = translate_all polys 0
                    (- (rad_i p + res_dist pc + 0.5 * (res_claw_width pc + res_ext pc)
                        + res_s pc + res_g_s pc));
          polys = rotate_all polys (res_angle pc) (0, 0)
      in case polys of [cpw_arm, port_line] \<Rightarrow> Inr (cpw_arm, port_line) | _ \<Rightarrow> Inl ValueError)"

text \<open>The gap around the arm of the grounded variant (lines 213 to 216).\<close>

definition grounded_cpw_gap :: "turtle_options \<Rightarrow> pad_options \<Rightarrow> shape" where
  "grounded_cpw_gap p pc =
     (let cpw_gap_rect = rectangle (cpw_width pc + 2 * cpw_gap pc) (res_ext pc + 0.5 * res_claw_width pc);
          cpw_gap_rect = Translate cpw_gap_rect 0
                    (- (rad_i p + res_dist pc + 0.5 * (res_claw_width pc + res_ext pc)
                        + res_s pc + res_g_s pc))
      in Rotate cpw_gap_rect (res_angle pc) (0, 0))"

text \<open>
  The grounded coupler in the local frame (lines 184 to 219): the same two failures
  (lines 189 and 195), and no rounding step.
\<close>

definition grounded_local :: "turtle_options \<Rightarrow> pad_options \<Rightarrow> error + shape \<times> shape \<times> shape" where
  "grounded_local p pc =
     (if grounded_r p pc = 0 then Inl ZeroDivisionError
      else if ring_crosses (grounded_wedge p pc) then Inl GEOSException
      else
        let res_claw = grounded_stroke p pc
        in case grounded_arm p pc of
             Inl e \<Rightarrow> Inl e
           | Inr (cpw_arm, port_line) \<Rightarrow>
               let claw_gap = Buffer res_claw (res_s pc) 64 2 1;
                   cpw_gap_rect = grounded_cpw_gap p pc;
                   res_claw = Union_shape res_claw cpw_arm;
                   res_gap = Union_shape claw_gap cpw_gap_rect
               in Inr (res_claw, res_gap, port_line))"

definition make_grounded_claw :: "turtle_options \<Rightarrow> string \<Rightarrow> pad_options \<Rightarrow> host \<Rightarrow> error + host" where
  "make_grounded_claw p name pc h =
     (case grounded_local p pc of Inl e \<Rightarrow> Inl e | Inr local \<Rightarrow> register_claw p name pc local h)"

subsection \<open>make\<close>

text \<open>
  The loop over the connection pads (lines 70 to 74). The pads are a dictionary: the
  loop runs over its keys and looks each one up. An exception ends the pass: the result
  is then the error alone.
\<close>

fun make_pads :: "turtle_options \<Rightarrow> string list \<Rightarrow> host \<Rightarrow> error + host" where
  "make_pads p [] h = Inr h"
| "make_pads p (name # names) h =
     (case map_of (connection_pads p) name of
        None \<Rightarrow> Inl KeyError
      | Some pc \<Rightarrow>
          (case (if res_g pc then make_grounded_claw p name pc h else make_claw p name pc h) of
             Inl e \<Rightarrow> Inl e
           | Inr h' \<Rightarrow> make_pads p names h'))"

definition TurtleQubit_make :: "turtle_options \<Rightarrow> string \<Rightarrow> host \<Rightarrow> error + host" where
  "TurtleQubit_make p render_mode h =
     (case make_turtle p render_mode h of
        Inl e \<Rightarrow> Inl e
      | Inr h' \<Rightarrow> make_pads p (map fst (connection_pads p)) h')"

section \<open>XYTip\<close>

record xytip_options = placed +
  trace_width :: real
  trace_gap :: real
  lead_length :: real
  tip_width :: real
  tip_height :: real
  tip_gap :: real
  taper_height :: real
  tip_fillet :: real
  orientation :: real

text \<open>The unrounded taper-and-pad polygon (lines 106 to 116).\<close>

definition xy_tip_polygon :: "xytip_options \<Rightarrow> shape" where
  "xy_tip_polygon p =
     (let trace_width_half = trace_width p / 2;
          tip_width_half = tip_width p / 2
      in Polygon
           [(0, trace_width_half),
            (- taper_height p, tip_width_half),
            (- (tip_height p + taper_height p), tip_width_half),
            (- (tip_height p + taper_height p), - tip_width_half),
            (- taper_height p, - tip_width_half),
            (0, - trace_width_half),
            (lead_length p, - trace_width_half),
            (lead_length p, trace_width_half),
            (0, trace_width_half)])"

text \<open>What is cut off the two outer corners of the pad (lines 118 to 130).\<close>

definition round_tip_negative :: "xytip_options \<Rightarrow> shape" where
  "round_tip_negative p =
     (let tip_width_half = tip_width p / 2;
          round_tip_circle_top =
            buffer (Point (- (tip_height p + taper_height p - tip_fillet p)) (tip_width_half - tip_fillet p))
              (tip_fillet p);
          round_tip_negative_top = Subtract
            (Polygon
               [(- (tip_height p + taper_height p - tip_fillet p), tip_width_half),
                (- (tip_height p + taper_height p), tip_width_half),
                (- (tip_height p + taper_height p), tip_width_half - tip_fillet p),
                (- (tip_height p + taper_height p - tip_fillet p), tip_width_half - tip_fillet p)])
            round_tip_circle_top;
          round_tip_circle_bottom =
            buffer (Point (- (tip_height p + taper_height p - tip_fillet p)) (- (tip_width_half - tip_fillet p)))
              (tip_fillet p);
          round_tip_negative_bottom = Subtract
            (Polygon
               [(- (tip_height p + taper_height p - tip_fillet p), - tip_width_half),
                (- (tip_height p + taper_height p), - tip_width_half),
                (- (tip_height p + taper_height p), - (tip_width_half - tip_fillet p)),
                (- (tip_height p + taper_height p - tip_fillet p), - (tip_width_half - tip_fillet p))])
            round_tip_circle_bottom
      in Union_shape round_tip_negative_top round_tip_negative_bottom)"

text \<open>The pocket (lines 135 to 145) and the pin line (lines 150 and 151).\<close>

definition xy_pocket :: "xytip_options \<Rightarrow> shape" where
  "xy_pocket p =
     (let trace_width_half = trace_width p / 2;
          tip_width_half = tip_width p / 2
      in Polygon
           [(0, trace_width_half + trace_gap p),
            (- taper_height p, tip_width_half + tip_gap p),
            (- (tip_height p + taper_height p + tip_gap p), tip_width_half + tip_gap p),
            (- (tip_height p + taper_height p + tip_gap p), - (tip_width_half + tip_gap p)),
            (- taper_height p, - (tip_width_half + tip_gap p)),
            (0, - (trace_width_half + trace_gap p)),
            (lead_length p, - (trace_width_half + trace_gap p)),
            (lead_length p, trace_width_half + trace_gap p),
            (0, trace_width_half + trace_gap p)])"

definition main_pin_line :: "xytip_options \<Rightarrow> shape" where
  "main_pin_line p =
     LineString [(lead_length p, trace_width p / 2), (lead_length p, - (trace_width p / 2))]"

text \<open>The three objects in the local frame (lines 106 to 154).\<close>

definition xytip_local :: "xytip_options \<Rightarrow> shape list" where
  "xytip_local p =
     (let xy_tip = xy_tip_polygon p;
          xy_tip = Subtract xy_tip (round_tip_negative p);
          pocket = xy_pocket p
      in [main_pin_line p, xy_tip, pocket])"

definition XYTip_make :: "xytip_options \<Rightarrow> host \<Rightarrow> error + host" where
  "XYTip_make p h =
     (let polys1 = xytip_local p;
          polys1 = rotate_all polys1 (orientation p) (0, 0);
          polys1 = translate_all polys1 (pos_x p) (pos_y p)
      in case polys1 of
           [pin_line, xy_tip, pocket] \<Rightarrow>
             add_pin ''tie'' pin_line (trace_width p)
               (add_qgeometry ''poly'' ''pocket'' pocket (layer p) True None
                 (add_qgeometry ''poly'' ''xy_tip'' xy_tip (layer p) False None h))
         | _ \<Rightarrow> Inl ValueError)"

section \<open>Auxiliary notions for the properties\<close>

text \<open>An instance of the styled buffers: every style treated as round.\<close>

definition round_style :: styled_buffer where
  "round_style cap join S d = dilate S d"

text \<open>
  The library draws a buffered point as a regular polygon with its corners on the
  circle, four times the resolution many (64 by default), the first on the positive
  x axis. \<open>circle_polygon c r n\<close> is that polygon, as the intersection of the half planes
  of its \<open>n\<close> edges. It lies between the discs of radius \<open>r * cos (pi / n)\<close> and \<open>r\<close>.
\<close>

definition circle_polygon :: "point \<Rightarrow> real \<Rightarrow> nat \<Rightarrow> point set" where
  "circle_polygon c r n =
     {p. \<forall>k<n. (fst p - fst c) * cos ((2 * real k + 1) * pi / real n)
               + (snd p - snd c) * sin ((2 * real k + 1) * pi / real n) \<le> r * cos (pi / real n)}"

text \<open>
  The outline shared by the launch tip and its pocket: half-width \<open>a\<close> along the lead
  (from 0 to \<open>L\<close>), half-width \<open>b\<close> along the pad (from \<open>- E\<close> to \<open>- T\<close>), and the taper
  between them; and the closed region that outline encloses.
\<close>

definition tapered :: "real \<Rightarrow> real \<Rightarrow> real \<Rightarrow> real \<Rightarrow> real \<Rightarrow> point list" where
  "tapered a b T E L =
     [(0, a), (- T, b), (- E, b), (- E, - b), (- T, - b), (0, - a), (L, - a), (L, a), (0, a)]"

definition taper_region :: "real \<Rightarrow> real \<Rightarrow> real \<Rightarrow> real \<Rightarrow> real \<Rightarrow> point set" where
  "taper_region a b T E L = {(x, y).
     (- E \<le> x \<and> x \<le> - T \<and> \<bar>y\<bar> \<le> b) \<or>
     (- T \<le> x \<and> x \<le> 0 \<and> \<bar>y\<bar> \<le> a + x * (a - b) / T) \<or>
     (0 \<le> x \<and> x \<le> L \<and> \<bar>y\<bar> \<le> a)}"

text \<open>
  Example options: a launch tip with the default dimensions on a 10um trace with a 6um
  gap; and a launch tip whose pad is shorter than its fillet radius (a pad 10um wide and
  0.3um high, a taper of 0.2um, a trace of 0.2um, a fillet of 1um).
\<close>

definition xytip_example :: xytip_options where
  "xytip_example =
     \<lparr>pos_x = 0, pos_y = 0, layer = 1, trace_width = 10 / 1000, trace_gap = 6 / 1000,
      lead_length = 10 / 1000, tip_width = 5 / 1000, tip_height = 100 / 1000,
      tip_gap = 3 / 1000, taper_height = 50 / 1000, tip_fillet = 1 / 1000,
      orientation = 0\<rparr>"

definition short_pad_tip :: xytip_options where
  "short_pad_tip =
     \<lparr>pos_x = 0, pos_y = 0, layer = 1, trace_width = 2 / 10000, trace_gap = 6 / 1000,
      lead_length = 10 / 1000, tip_width = 10 / 1000, tip_height = 3 / 10000,
      tip_gap = 3 / 1000, taper_height = 2 / 10000, tip_fillet = 1 / 1000,
      orientation = 0\<rparr>"

text \<open>The shape a pass registered under a name (the first, if there are several).\<close>

definition registered_shape :: "string \<Rightarrow> error + host \<Rightarrow> shape option" where
  "registered_shape n r =
     (case r of Inl e \<Rightarrow> None
      | Inr h \<Rightarrow> map_option qg_shape (find (\<lambda>g. qg_name g = n) (qgeometry h)))"

definition registered_pts :: "styled_buffer \<Rightarrow> string \<Rightarrow> error + host \<Rightarrow> point set" where
  "registered_pts sb n r = (case registered_shape n r of None \<Rightarrow> {} | Some s \<Rightarrow> pts sb s)"

text \<open>
  A TurtleQubit with one connection pad that has no isolation gap at all (\<open>res_s\<close> and
  \<open>res_g_s\<close> are zero), plain or grounded; and one whose gap to the ground plane is 0.2um.
\<close>

definition flat_pad :: "bool \<Rightarrow> turtle_options" where
  "flat_pad g = default_options
     \<lparr>connection_pads := [(''readout'', default_connection_pad\<lparr>res_s := 0, res_g := g, res_g_s := 0\<rparr>)]\<rparr>"

text \<open>A TurtleQubit with the default options, placed at the origin.\<close>

definition origin_turtle :: turtle_options where
  "origin_turtle = default_options\<lparr>pos_x := 0, pos_y := 0\<rparr>"

definition thin_gap :: turtle_options where
  "thin_gap = default_options\<lparr>gap := 2 / 10000\<rparr>"

section \<open>Facts about the point sets\<close>

lemma pts_disc: "0 \<le> r \<Longrightarrow> pts sb (buffer (Point cx cy) r) = {(x, y). (x - cx)\<^sup>2 + (y - cy)\<^sup>2 \<le> r\<^sup>2}"
  by (auto simp: buffer_def dilate_def d2_def)

lemma in_rectangle:
  "in_polygon (x, y) [(w / 2, - (h / 2)), (w / 2, h / 2), (- (w / 2), h / 2), (- (w / 2), - (h / 2))]
   \<longleftrightarrow> \<bar>x\<bar> \<le> \<bar>w\<bar> / 2 \<and> \<bar>y\<bar> \<le> \<bar>h\<bar> / 2"
  apply (simp add: in_polygon_def ring_edges_def)
  apply (cases "w = 0")
   apply (auto simp: min_def max_def abs_if split: if_splits)[1]
  apply (auto simp: min_def max_def abs_if field_simps split: if_splits)
  done

lemma tapered_cross:
  assumes "0 < T" "T < E" "0 < L" "0 \<le> a" "0 \<le> b"
  shows "odd (length (filter (crosses (x, y)) (ring_edges (tapered a b T E L)))) \<longleftrightarrow>
     (- E \<le> x \<and> x < - T \<and> - b \<le> y \<and> y < b) \<or>
     (- T \<le> x \<and> x < 0 \<and> - (a + x * (a - b) / T) \<le> y \<and> y < a + x * (a - b) / T) \<or>
     (0 \<le> x \<and> x < L \<and> - a \<le> y \<and> y < a)"
proof -
  consider "x < - E" | "- E \<le> x \<and> x < - T" | "- T \<le> x \<and> x < 0" | "0 \<le> x \<and> x < L" | "L \<le> x"
    by linarith
  then show ?thesis
  proof cases
    case 1 then show ?thesis using assms by (simp add: tapered_def ring_edges_def)
  next
    case 2 then show ?thesis using assms by (auto simp add: tapered_def ring_edges_def)
  next
    case 3
    have k: "(b - a) * x \<le> T * a"
    proof (cases "a \<le> b")
      case True
      then have "(b - a) * x \<le> 0" using 3 by (simp add: mult_nonneg_nonpos)
      moreover have "0 \<le> T * a" using assms by simp
      ultimately show ?thesis by linarith
    next
      case False
      then have "(a - b) * (- x) \<le> (a - b) * T" using 3 by (intro mult_left_mono) auto
      moreover have "(a - b) * T \<le> a * T" using assms by (intro mult_right_mono) auto
      ultimately show ?thesis by (simp add: algebra_simps)
    qed
    have k': "b * x \<le> T * a + a * x" using k by (simp add: algebra_simps)
    show ?thesis using 3 assms k' by (auto simp add: tapered_def ring_edges_def field_simps)
  next
    case 4 then show ?thesis using assms by (auto simp add: tapered_def ring_edges_def)
  next
    case 5 then show ?thesis using assms by (simp add: tapered_def ring_edges_def)
  qed
qed

lemma taper_k:
  fixes T a b x :: real
  assumes "0 < T" "0 \<le> a" "0 \<le> b" "- T \<le> x" "x \<le> 0"
  shows "b * x \<le> T * a + a * x"
proof -
  have k: "(b - a) * x \<le> T * a"
  proof (cases "a \<le> b")
    case True
    then have "(b - a) * x \<le> 0" using assms by (simp add: mult_nonneg_nonpos)
    moreover have "0 \<le> T * a" using assms by simp
    ultimately show ?thesis by linarith
  next
    case False
    then have "(a - b) * (- x) \<le> (a - b) * T" using assms by (intro mult_left_mono) auto
    moreover have "(a - b) * T \<le> a * T" using assms by (intro mult_right_mono) auto
    ultimately show ?thesis by (simp add: algebra_simps)
  qed
  then show ?thesis by (simp add: algebra_simps)
qed

lemma top_nonneg:
  fixes T a b x :: real
  assumes "0 < T" "0 \<le> a" "0 \<le> b" "- T \<le> x" "x \<le> 0"
  shows "0 \<le> a + x * (a - b) / T"
proof -
  have "0 \<le> (T * a + a * x - b * x) / T" using taper_k[OF assms] assms(1) by simp
  also have "\<dots> = a + x * (a - b) / T" using assms(1) by (simp add: field_simps)
  finally show ?thesis .
qed

lemma seg_top_taper:
  assumes "0 < T" "0 \<le> a" "0 \<le> b" "on_segment (x, y) ((0, a), (- T, b))"
  shows "- T \<le> x \<and> x \<le> 0 \<and> y = a + x * (a - b) / T"
  using assms by (auto simp: field_simps)

lemma seg_bot_taper:
  assumes "0 < T" "0 \<le> a" "0 \<le> b" "on_segment (x, y) ((- T, - b), (0, - a))"
  shows "- T \<le> x \<and> x \<le> 0 \<and> y = - (a + x * (a - b) / T)"
  using assms by (auto simp: field_simps)

lemma tapered_edges:
  "ring_edges (tapered a b T E L) =
     [((0, a), (- T, b)), ((- T, b), (- E, b)), ((- E, b), (- E, - b)), ((- E, - b), (- T, - b)),
      ((- T, - b), (0, - a)), ((0, - a), (L, - a)), ((L, - a), (L, a)), ((L, a), (0, a)),
      ((0, a), (0, a))]"
  by (simp add: tapered_def ring_edges_def)

lemma tapered_boundary_in:
  assumes "0 < T" "T < E" "0 < L" "0 \<le> a" "0 \<le> b"
    and "list_ex (on_segment (x, y)) (ring_edges (tapered a b T E L))"
  shows "(x, y) \<in> taper_region a b T E L"
proof -
  from assms(6) consider
      "on_segment (x, y) ((0, a), (- T, b))" | "on_segment (x, y) ((- T, b), (- E, b))"
    | "on_segment (x, y) ((- E, b), (- E, - b))" | "on_segment (x, y) ((- E, - b), (- T, - b))"
    | "on_segment (x, y) ((- T, - b), (0, - a))" | "on_segment (x, y) ((0, - a), (L, - a))"
    | "on_segment (x, y) ((L, - a), (L, a))" | "on_segment (x, y) ((L, a), (0, a))"
    | "on_segment (x, y) ((0, a), (0, a))"
    unfolding tapered_edges by (auto simp only: list_ex_Cons_iff list_ex_Nil_iff)
  then show ?thesis
  proof cases
    case 1
    from seg_top_taper[OF assms(1,4,5) 1] top_nonneg[OF assms(1,4,5), of x]
    show ?thesis by (simp add: taper_region_def)
  next
    case 2 then show ?thesis using assms(1-5) by (auto simp add: taper_region_def abs_le_iff)
  next
    case 3 then show ?thesis using assms(1-5) by (auto simp add: taper_region_def abs_le_iff)
  next
    case 4 then show ?thesis using assms(1-5) by (auto simp add: taper_region_def abs_le_iff)
  next
    case 5
    from seg_bot_taper[OF assms(1,4,5) 5] top_nonneg[OF assms(1,4,5), of x]
    show ?thesis by (simp add: taper_region_def)
  next
    case 6 then show ?thesis using assms(1-5) by (auto simp add: taper_region_def abs_le_iff)
  next
    case 7 then show ?thesis using assms(1-5) by (auto simp add: taper_region_def abs_le_iff)
  next
    case 8 then show ?thesis using assms(1-5) by (auto simp add: taper_region_def abs_le_iff)
  next
    case 9 then show ?thesis using assms(1-5) by (auto simp add: taper_region_def abs_le_iff)
  qed
qed

lemma seg_horizontal:
  "on_segment (x, y) ((ax, c), (bx, c)) \<longleftrightarrow> y = c \<and> min ax bx \<le> x \<and> x \<le> max ax bx"
  by auto

lemma seg_vertical:
  "on_segment (x, y) ((c, ay), (c, by)) \<longleftrightarrow> x = c \<and> min ay by \<le> y \<and> y \<le> max ay by"
  by auto

lemma seg_top_taper_iff:
  assumes "0 < T" "0 \<le> a" "0 \<le> b"
  shows "on_segment (x, y) ((0, a), (- T, b)) \<longleftrightarrow> - T \<le> x \<and> x \<le> 0 \<and> y = a + x * (a - b) / T"
proof
  assume "on_segment (x, y) ((0, a), (- T, b))"
  then show "- T \<le> x \<and> x \<le> 0 \<and> y = a + x * (a - b) / T" by (rule seg_top_taper[OF assms])
next
  assume h: "- T \<le> x \<and> x \<le> 0 \<and> y = a + x * (a - b) / T"
  define t where "t = - x / T"
  have y: "y = a + t * (b - a)" using h assms(1) by (simp add: t_def field_simps)
  have t: "0 \<le> t" "t \<le> 1" using h assms(1) by (simp_all add: t_def field_simps)
  have lo: "min a b \<le> y"
  proof (cases "a \<le> b")
    case True
    then have "0 \<le> t * (b - a)" using t by simp
    then show ?thesis using True y by simp
  next
    case False
    then have "t * (a - b) \<le> 1 * (a - b)" using t by (intro mult_right_mono) auto
    then show ?thesis using False y by (simp add: algebra_simps)
  qed
  have hi: "y \<le> max a b"
  proof (cases "a \<le> b")
    case True
    then have "t * (b - a) \<le> 1 * (b - a)" using t by (intro mult_right_mono) auto
    then show ?thesis using True y by (simp add: algebra_simps)
  next
    case False
    then have "0 \<le> t * (a - b)" using t by simp
    then show ?thesis using False y by (simp add: algebra_simps)
  qed
  show "on_segment (x, y) ((0, a), (- T, b))"
    using h lo hi assms(1) by (simp add: field_simps)
qed

lemma tapered_region_in:
  assumes "0 < T" "T < E" "0 < L" "0 \<le> a" "0 \<le> b"
    and r: "(x, y) \<in> taper_region a b T E L"
  shows "in_polygon (x, y) (tapered a b T E L)"
proof -
  define top where "top = a + x * (a - b) / T"
  have par: "odd (length (filter (crosses (x, y)) (ring_edges (tapered a b T E L)))) \<longleftrightarrow>
     (- E \<le> x \<and> x < - T \<and> - b \<le> y \<and> y < b) \<or>
     (- T \<le> x \<and> x < 0 \<and> - top \<le> y \<and> y < top) \<or>
     (0 \<le> x \<and> x < L \<and> - a \<le> y \<and> y < a)"
    unfolding tapered_cross[OF assms(1-5)] top_def by simp
  have s1: "- T \<le> x \<and> x \<le> 0 \<and> y = top \<Longrightarrow> list_ex (on_segment (x, y)) (ring_edges (tapered a b T E L))"
    unfolding tapered_edges list_ex_Cons_iff seg_top_taper_iff[OF assms(1,4,5)] top_def by blast
  have s2: "y = b \<and> - E \<le> x \<and> x \<le> - T \<Longrightarrow> list_ex (on_segment (x, y)) (ring_edges (tapered a b T E L))"
    unfolding tapered_edges list_ex_Cons_iff seg_horizontal using assms(1,2) by simp
  have s7: "x = L \<and> - a \<le> y \<and> y \<le> a \<Longrightarrow> list_ex (on_segment (x, y)) (ring_edges (tapered a b T E L))"
    unfolding tapered_edges list_ex_Cons_iff seg_vertical using assms(4) by simp
  have s8: "y = a \<and> 0 \<le> x \<and> x \<le> L \<Longrightarrow> list_ex (on_segment (x, y)) (ring_edges (tapered a b T E L))"
    unfolding tapered_edges list_ex_Cons_iff seg_horizontal using assms(3) by simp
  have t0: "x = 0 \<Longrightarrow> top = a" and tT: "x = - T \<Longrightarrow> top = b"
    using assms(1) by (simp_all add: top_def field_simps)
  from r consider
      (A) "- E \<le> x" "x \<le> - T" "- b \<le> y" "y \<le> b"
    | (B) "- T \<le> x" "x \<le> 0" "- top \<le> y" "y \<le> top"
    | (C) "0 \<le> x" "x \<le> L" "- a \<le> y" "y \<le> a"
    unfolding taper_region_def top_def by (auto simp: abs_le_iff)
  then show ?thesis
  proof cases
    case A
    show ?thesis
    proof (cases "y = b")
      case True then show ?thesis unfolding in_polygon_def using s2 A by blast
    next
      case False
      then have yb: "y < b" using A by simp
      show ?thesis
      proof (cases "x = - T")
        case True
        then have "- T \<le> x \<and> x < 0 \<and> - top \<le> y \<and> y < top"
          using tT A yb assms(1) by simp
        then show ?thesis unfolding in_polygon_def par by blast
      next
        case False
        then have "- E \<le> x \<and> x < - T \<and> - b \<le> y \<and> y < b" using A yb by simp
        then show ?thesis unfolding in_polygon_def par by blast
      qed
    qed
  next
    case B
    show ?thesis
    proof (cases "y = top")
      case True then show ?thesis unfolding in_polygon_def using s1 B by blast
    next
      case False
      then have yb: "y < top" using B by simp
      show ?thesis
      proof (cases "x = 0")
        case True
        then have "0 \<le> x \<and> x < L \<and> - a \<le> y \<and> y < a"
          using t0 B yb assms(3) by simp
        then show ?thesis unfolding in_polygon_def par by blast
      next
        case False
        then have "- T \<le> x \<and> x < 0 \<and> - top \<le> y \<and> y < top" using B yb by simp
        then show ?thesis unfolding in_polygon_def par by blast
      qed
    qed
  next
    case C
    show ?thesis
    proof (cases "y = a")
      case True then show ?thesis unfolding in_polygon_def using s8 C by blast
    next
      case False
      then have yb: "y < a" using C by simp
      show ?thesis
      proof (cases "x = L")
        case True then show ?thesis unfolding in_polygon_def using s7 C by blast
      next
        case False
        then have "0 \<le> x \<and> x < L \<and> - a \<le> y \<and> y < a" using C yb by simp
        then show ?thesis unfolding in_polygon_def par by blast
      qed
    qed
  qed
qed

lemma in_tapered:
  assumes "0 < T" "T < E" "0 < L" "0 \<le> a" "0 \<le> b"
  shows "in_polygon (x, y) (tapered a b T E L) \<longleftrightarrow> (x, y) \<in> taper_region a b T E L"
proof
  assume "in_polygon (x, y) (tapered a b T E L)"
  then consider "list_ex (on_segment (x, y)) (ring_edges (tapered a b T E L))"
    | "odd (length (filter (crosses (x, y)) (ring_edges (tapered a b T E L))))"
    unfolding in_polygon_def by blast
  then show "(x, y) \<in> taper_region a b T E L"
  proof cases
    case 1 then show ?thesis by (rule tapered_boundary_in[OF assms])
  next
    case 2 then show ?thesis unfolding tapered_cross[OF assms] taper_region_def by auto
  qed
next
  assume "(x, y) \<in> taper_region a b T E L"
  then show "in_polygon (x, y) (tapered a b T E L)" by (rule tapered_region_in[OF assms])
qed

lemma rotate_pt_zero [simp]: "rotate_pt 0 (0, 0) = (\<lambda>p. p)"
  by (rule ext) (auto simp: split_paired_all)

lemma translate_pt_zero [simp]: "translate_pt 0 0 = (\<lambda>p. p)"
  by (rule ext) (auto simp: split_paired_all)

lemma pts_rectangle: "pts sb (rectangle w h) = {(x, y). \<bar>x\<bar> \<le> \<bar>w\<bar> / 2 \<and> \<bar>y\<bar> \<le> \<bar>h\<bar> / 2}"
  by (auto simp: rectangle_def in_rectangle)

lemma pts_translate_rectangle:
  "pts sb (Translate (rectangle w h) dx dy) = {(x, y). \<bar>x - dx\<bar> \<le> \<bar>w\<bar> / 2 \<and> \<bar>y - dy\<bar> \<le> \<bar>h\<bar> / 2}"
proof (rule set_eqI)
  fix p :: point
  obtain x y where p: "p = (x, y)" by (cases p)
  have "p \<in> translate_pt dx dy ` pts sb (rectangle w h) \<longleftrightarrow> (x - dx, y - dy) \<in> pts sb (rectangle w h)"
  proof
    assume "p \<in> translate_pt dx dy ` pts sb (rectangle w h)"
    then obtain u v where "(u, v) \<in> pts sb (rectangle w h)" "p = translate_pt dx dy (u, v)" by auto
    then show "(x - dx, y - dy) \<in> pts sb (rectangle w h)" using p by simp
  next
    assume "(x - dx, y - dy) \<in> pts sb (rectangle w h)"
    moreover have "p = translate_pt dx dy (x - dx, y - dy)" using p by simp
    ultimately show "p \<in> translate_pt dx dy ` pts sb (rectangle w h)" by (rule rev_image_eqI)
  qed
  also have "\<dots> \<longleftrightarrow> \<bar>x - dx\<bar> \<le> \<bar>w\<bar> / 2 \<and> \<bar>y - dy\<bar> \<le> \<bar>h\<bar> / 2"
    unfolding pts_rectangle by simp
  finally show "p \<in> pts sb (Translate (rectangle w h) dx dy)
     \<longleftrightarrow> p \<in> {(x, y). \<bar>x - dx\<bar> \<le> \<bar>w\<bar> / 2 \<and> \<bar>y - dy\<bar> \<le> \<bar>h\<bar> / 2}"
    using p by simp
qed

lemma pts_launch_rectangle:
  "pts sb (Translate (rectangle w h) 0 (- d)) = {(x, y). \<bar>x\<bar> \<le> \<bar>w\<bar> / 2 \<and> \<bar>y + d\<bar> \<le> \<bar>h\<bar> / 2}"
  unfolding pts_translate_rectangle by simp

lemma pts_disc0: "0 \<le> r \<Longrightarrow> pts sb (buffer (Point 0 0) r) = {(x, y). x\<^sup>2 + y\<^sup>2 \<le> r\<^sup>2}"
  using pts_disc[of r sb 0 0] by simp

section \<open>Facts about the registered shapes\<close>

subsection \<open>Containment\<close>

lemma place_mono:
  "pts sb A \<subseteq> pts sb B \<Longrightarrow>
   pts sb (Translate (Rotate A rot origin) xoff yoff) \<subseteq> pts sb (Translate (Rotate B rot origin) xoff yoff)"
  by (simp add: image_mono)

lemma sq_mono: fixes a b :: real shows "\<bar>a\<bar> \<le> b \<Longrightarrow> a\<^sup>2 \<le> b\<^sup>2"
  by (metis abs_le_square_iff abs_of_nonneg abs_ge_zero order_trans)

lemma disc_mono:
  assumes "0 \<le> r" "0 \<le> g"
  shows "pts sb (buffer (Point 0 0) r) \<subseteq> pts sb (buffer (Point 0 0) (r + g))"
proof -
  have le: "r\<^sup>2 \<le> (r + g)\<^sup>2" using assms by (intro sq_mono) simp
  have rg: "0 \<le> r + g" using assms by simp
  show ?thesis unfolding pts_disc0[OF assms(1)] pts_disc0[OF rg]
  proof (intro subsetI)
    fix p :: point
    obtain x y where p: "p = (x, y)" by (cases p)
    assume "p \<in> {(x, y). x\<^sup>2 + y\<^sup>2 \<le> r\<^sup>2}"
    then have "x\<^sup>2 + y\<^sup>2 \<le> r\<^sup>2" using p by simp
    then have "x\<^sup>2 + y\<^sup>2 \<le> (r + g)\<^sup>2" using le by linarith
    then show "p \<in> {(x, y). x\<^sup>2 + y\<^sup>2 \<le> (r + g)\<^sup>2}" using p by simp
  qed
qed

lemma turtle_simulate_contained:
  assumes r: "0 \<le> r" and g: "1 / 1000 < g"
    and fit: "(w / 2)\<^sup>2 + (r + 1 / 2000)\<^sup>2 \<le> (r + g)\<^sup>2"
  shows "pts sb (Union_shape (buffer (Point 0 0) r) (Translate (rectangle w (1 / 1000)) 0 (- r)))
         \<subseteq> pts sb (Subtract (buffer (Point 0 0) (r + g)) (Translate (rectangle w (1 / 1000)) 0 (- (r + g))))"
proof -
  have rg: "0 \<le> r + g" using r g by simp
  have d1: "pts sb (buffer (Point 0 0) r) = {(x, y). x\<^sup>2 + y\<^sup>2 \<le> r\<^sup>2}" by (rule pts_disc0[OF r])
  have d2: "pts sb (buffer (Point 0 0) (r + g)) = {(x, y). x\<^sup>2 + y\<^sup>2 \<le> (r + g)\<^sup>2}" by (rule pts_disc0[OF rg])
  have r1: "pts sb (Translate (rectangle w (1 / 1000)) 0 (- r)) = {(x, y). \<bar>x\<bar> \<le> \<bar>w\<bar> / 2 \<and> \<bar>y + r\<bar> \<le> 1 / 2000}"
    using pts_launch_rectangle[of sb w "1 / 1000" r] by simp
  have r2: "pts sb (Translate (rectangle w (1 / 1000)) 0 (- (r + g))) = {(x, y). \<bar>x\<bar> \<le> \<bar>w\<bar> / 2 \<and> \<bar>y + (r + g)\<bar> \<le> 1 / 2000}"
    using pts_launch_rectangle[of sb w "1 / 1000" "r + g"] by simp
  have "(x, y) \<in> {(x, y). x\<^sup>2 + y\<^sup>2 \<le> (r + g)\<^sup>2} - {(x, y). \<bar>x\<bar> \<le> \<bar>w\<bar> / 2 \<and> \<bar>y + (r + g)\<bar> \<le> 1 / 2000}"
    if h: "(x, y) \<in> {(x, y). x\<^sup>2 + y\<^sup>2 \<le> r\<^sup>2} \<union> {(x, y). \<bar>x\<bar> \<le> \<bar>w\<bar> / 2 \<and> \<bar>y + r\<bar> \<le> 1 / 2000}" for x y
  proof -
    from h consider (disc) "x\<^sup>2 + y\<^sup>2 \<le> r\<^sup>2" | (rect) "\<bar>x\<bar> \<le> \<bar>w\<bar> / 2" "\<bar>y + r\<bar> \<le> 1 / 2000" by auto
    then show ?thesis
    proof cases
      case disc
      have "r\<^sup>2 \<le> (r + g)\<^sup>2" using r g by (intro sq_mono) simp
      then have in_big: "x\<^sup>2 + y\<^sup>2 \<le> (r + g)\<^sup>2" using disc by linarith
      have "\<not> \<bar>y + (r + g)\<bar> \<le> 1 / 2000"
      proof
        assume "\<bar>y + (r + g)\<bar> \<le> 1 / 2000"
        then have "\<bar>r\<bar> \<le> - y" using g r by linarith
        then have "r\<^sup>2 \<le> (- y)\<^sup>2" by (rule sq_mono)
        moreover have "r < - y" using \<open>\<bar>y + (r + g)\<bar> \<le> 1 / 2000\<close> g by linarith
        then have "r\<^sup>2 < (- y)\<^sup>2" using r by (intro power_strict_mono) auto
        then have "r\<^sup>2 < y\<^sup>2" by simp
        moreover have "0 \<le> x\<^sup>2" by simp
        ultimately show False using disc by linarith
      qed
      then show ?thesis using in_big by simp
    next
      case rect
      have "x\<^sup>2 \<le> (\<bar>w\<bar> / 2)\<^sup>2" using rect(1) by (rule sq_mono)
      then have x: "x\<^sup>2 \<le> (w / 2)\<^sup>2" by (simp add: power_divide)
      have "\<bar>y\<bar> \<le> r + 1 / 2000" using rect(2) r by linarith
      then have y: "y\<^sup>2 \<le> (r + 1 / 2000)\<^sup>2" by (rule sq_mono)
      have in_big: "x\<^sup>2 + y\<^sup>2 \<le> (r + g)\<^sup>2" using x y fit by linarith
      have "\<not> \<bar>y + (r + g)\<bar> \<le> 1 / 2000" using rect(2) g by linarith
      then show ?thesis using in_big by simp
    qed
  qed
  then show ?thesis unfolding pts.simps(6,8) d1 d2 r1 r2 by (intro subsetI) (auto simp only: split_paired_all)
qed

lemma dilate_extensive: "0 \<le> d \<Longrightarrow> S \<subseteq> dilate S d"
proof
  fix p assume "0 \<le> d" "p \<in> S"
  moreover have "d2 p p \<le> d\<^sup>2" by (simp add: d2_def)
  ultimately show "p \<in> dilate S d" unfolding dilate_def by auto
qed

lemma rectangle_widen:
  assumes "0 \<le> w" "0 \<le> g"
  shows "pts sb (rectangle w h) \<subseteq> pts sb (rectangle (w + 2 * g) h)"
  unfolding pts_rectangle using assms by auto

lemma arm_in_gap:
  assumes "0 \<le> w" "0 \<le> g"
  shows "pts sb (Rotate (Translate (rectangle w h) 0 d) ang origin)
         \<subseteq> pts sb (Rotate (Translate (rectangle (w + 2 * g) h) 0 d) ang origin)"
  using rectangle_widen[OF assms, of sb h] by (simp add: image_mono)

lemma round_claw_subset: "pts sb (round_claw rounding s) \<subseteq> pts sb s"
  by (auto simp: round_claw_def Let_def)

lemma dim_claw_stroke: "dim (claw_stroke p pc) = 2" "dim (grounded_stroke p pc) = 2"
  by (simp_all add: claw_stroke_def grounded_stroke_def Let_def)

lemma claw_local_contained:
  assumes "claw_local p pc = Inr (a, b, c)" "0 \<le> res_s pc" "0 \<le> cpw_width pc" "0 \<le> cpw_gap pc"
  shows "pts sb a \<subseteq> pts sb b"
proof -
  let ?S = "claw_stroke p pc"
  let ?h = "res_ext pc + 0.5 * res_claw_width pc"
  let ?d = "- (rad_i p + res_dist pc + 0.5 * (res_claw_width pc + res_ext pc))"
  let ?arm = "Rotate (Translate (rectangle (cpw_width pc) ?h) 0 ?d) (res_angle pc) (0, 0)"
  let ?gap = "Rotate (Translate (rectangle (cpw_width pc + 2 * cpw_gap pc) ?h) 0 ?d) (res_angle pc) (0, 0)"
  have a: "a = Union_shape (round_claw (res_claw_rounding pc) ?S) ?arm"
    and b: "b = Union_shape (Buffer ?S (res_s pc) 64 2 1) ?gap"
    using assms(1)
    by (auto simp: claw_local_def claw_arm_def claw_cpw_gap_def rotate_all_def translate_all_def Let_def
        split: if_splits)
  have 1: "pts sb (round_claw (res_claw_rounding pc) ?S) \<subseteq> pts sb (Buffer ?S (res_s pc) 64 2 1)"
    using round_claw_subset[of sb "res_claw_rounding pc" ?S] dilate_extensive[OF assms(2), of "pts sb ?S"]
    by (simp add: dim_claw_stroke)
  have 2: "pts sb ?arm \<subseteq> pts sb ?gap" by (rule arm_in_gap[OF assms(3,4)])
  show ?thesis unfolding a b using 1 2 by (simp only: pts.simps) blast
qed

lemma grounded_local_contained:
  assumes "grounded_local p pc = Inr (a, b, c)" "0 \<le> res_s pc" "0 \<le> cpw_width pc" "0 \<le> cpw_gap pc"
  shows "pts sb a \<subseteq> pts sb b"
proof -
  let ?S = "grounded_stroke p pc"
  let ?h = "res_ext pc + 0.5 * res_claw_width pc"
  let ?d = "- (rad_i p + res_dist pc + 0.5 * (res_claw_width pc + res_ext pc) + res_s pc + res_g_s pc)"
  let ?arm = "Rotate (Translate (rectangle (cpw_width pc) ?h) 0 ?d) (res_angle pc) (0, 0)"
  let ?gap = "Rotate (Translate (rectangle (cpw_width pc + 2 * cpw_gap pc) ?h) 0 ?d) (res_angle pc) (0, 0)"
  have a: "a = Union_shape ?S ?arm"
    and b: "b = Union_shape (Buffer ?S (res_s pc) 64 2 1) ?gap"
    using assms(1)
    by (auto simp: grounded_local_def grounded_arm_def grounded_cpw_gap_def rotate_all_def
        translate_all_def Let_def split: if_splits)
  have 1: "pts sb ?S \<subseteq> pts sb (Buffer ?S (res_s pc) 64 2 1)"
    using dilate_extensive[OF assms(2), of "pts sb ?S"] by (simp add: dim_claw_stroke)
  have 2: "pts sb ?arm \<subseteq> pts sb ?gap" by (rule arm_in_gap[OF assms(3,4)])
  show ?thesis unfolding a b using 1 2 by (simp only: pts.simps) blast
qed

lemma claw_local_succeeds:
  "claw_r p pc \<noteq> 0 \<Longrightarrow> \<not> ring_crosses (claw_wedge p pc)
     \<Longrightarrow> \<exists>a b c cs. claw_local p pc = Inr (a, b, c) \<and> coords c = Some cs"
  "grounded_r p pc \<noteq> 0 \<Longrightarrow> \<not> ring_crosses (grounded_wedge p pc)
     \<Longrightarrow> \<exists>a b c cs. grounded_local p pc = Inr (a, b, c) \<and> coords c = Some cs"
  by (simp_all add: claw_local_def claw_arm_def grounded_local_def grounded_arm_def
      rotate_all_def translate_all_def Let_def)

lemma claw_local_port:
  "claw_local p pc = Inr (a, b, c) \<Longrightarrow> \<exists>cs. coords c = Some cs"
  "grounded_local p pc = Inr (a, b, c) \<Longrightarrow> \<exists>cs. coords c = Some cs"
  by (auto simp: claw_local_def claw_arm_def grounded_local_def grounded_arm_def
      rotate_all_def translate_all_def Let_def split: if_splits)

lemma register_claw_registered:
  assumes "coords c = Some cs"
  shows "registered_shape ''res_claw'' (register_claw p name pc (a, b, c) empty_host)
           = Some (Translate (Rotate a (rotation p) (0, 0)) (pos_x p) (pos_y p))"
    and "registered_shape ''poly5'' (register_claw p name pc (a, b, c) empty_host)
           = Some (Translate (Rotate b (rotation p) (0, 0)) (pos_x p) (pos_y p))"
  using assms
  by (simp_all add: registered_shape_def register_claw_def rotate_all_def translate_all_def
      add_pin_def add_qgeometry_def empty_host_def)

lemma make_turtle_registered:
  assumes "turtle_local p render_mode = (a, b, c)"
  shows "registered_shape ''Qubit'' (make_turtle p render_mode empty_host)
           = Some (Translate (Rotate a (rotation p) (0, 0)) (pos_x p) (pos_y p))"
    and "registered_shape ''Pocket'' (make_turtle p render_mode empty_host)
           = Some (Translate (Rotate b (rotation p) (0, 0)) (pos_x p) (pos_y p))"
  using assms
  by (simp_all add: registered_shape_def make_turtle_def rotate_all_def translate_all_def
      add_qgeometry_def empty_host_def)

lemma XYTip_make_registered:
  "registered_shape ''xy_tip'' (XYTip_make q empty_host)
     = Some (Translate (Rotate (Subtract (xy_tip_polygon q) (round_tip_negative q)) (orientation q) (0, 0)) (pos_x q) (pos_y q))"
  "registered_shape ''pocket'' (XYTip_make q empty_host)
     = Some (Translate (Rotate (xy_pocket q) (orientation q) (0, 0)) (pos_x q) (pos_y q))"
  by (simp_all add: registered_shape_def XYTip_make_def xytip_local_def main_pin_line_def
      rotate_all_def translate_all_def add_pin_def add_qgeometry_def empty_host_def)

lemma taper_region_mono:
  assumes T: "0 < T" and a: "a \<le> a'" and b: "b \<le> b'" and E: "E \<le> E'"
  shows "taper_region a b T E L \<subseteq> taper_region a' b' T E' L"
proof
  fix p :: point
  obtain x y where p: "p = (x, y)" by (cases p)
  assume "p \<in> taper_region a b T E L"
  then consider
      (A) "- E \<le> x" "x \<le> - T" "\<bar>y\<bar> \<le> b"
    | (B) "- T \<le> x" "x \<le> 0" "\<bar>y\<bar> \<le> a + x * (a - b) / T"
    | (C) "0 \<le> x" "x \<le> L" "\<bar>y\<bar> \<le> a"
    unfolding taper_region_def p by auto
  then show "p \<in> taper_region a' b' T E' L"
  proof cases
    case A
    then have "- E' \<le> x \<and> x \<le> - T \<and> \<bar>y\<bar> \<le> b'" using b E by linarith
    then show ?thesis unfolding taper_region_def p by simp
  next
    case B
    define t where "t = - x / T"
    have t: "0 \<le> t" "t \<le> 1" using B T by (simp_all add: t_def field_simps)
    have e: "a + x * (a - b) / T = (1 - t) * a + t * b" "a' + x * (a' - b') / T = (1 - t) * a' + t * b'"
      using T by (simp_all add: t_def field_simps)
    have "(1 - t) * a \<le> (1 - t) * a'" using t a by (intro mult_left_mono) auto
    moreover have "t * b \<le> t * b'" using t b by (intro mult_left_mono) auto
    ultimately have "\<bar>y\<bar> \<le> a' + x * (a' - b') / T" using B(3) unfolding e by linarith
    then show ?thesis unfolding taper_region_def p using B by simp
  next
    case C
    then have "0 \<le> x \<and> x \<le> L \<and> \<bar>y\<bar> \<le> a'" using a by linarith
    then show ?thesis unfolding taper_region_def p by simp
  qed
qed

lemma xy_tip_polygon_tapered:
  "xy_tip_polygon q = Polygon (tapered (trace_width q / 2) (tip_width q / 2) (taper_height q)
       (tip_height q + taper_height q) (lead_length q))"
  by (simp add: xy_tip_polygon_def tapered_def Let_def)

lemma xy_pocket_tapered:
  "xy_pocket q = Polygon (tapered (trace_width q / 2 + trace_gap q) (tip_width q / 2 + tip_gap q)
       (taper_height q) (tip_height q + taper_height q + tip_gap q) (lead_length q))"
  by (simp add: xy_pocket_def tapered_def Let_def)

lemma pts_tapered:
  assumes "0 < T" "T < E" "0 < L" "0 \<le> a" "0 \<le> b"
  shows "pts sb (Polygon (tapered a b T E L)) = taper_region a b T E L"
  using in_tapered[OF assms] by (auto simp only: pts.simps mem_Collect_eq)

lemma xy_tip_in_pocket:
  assumes "0 < taper_height q" "0 < tip_height q" "0 < lead_length q"
    "0 \<le> trace_width q" "0 \<le> tip_width q" "0 \<le> trace_gap q" "0 \<le> tip_gap q"
  shows "pts sb (Subtract (xy_tip_polygon q) (round_tip_negative q)) \<subseteq> pts sb (xy_pocket q)"
proof -
  have 1: "pts sb (xy_tip_polygon q) = taper_region (trace_width q / 2) (tip_width q / 2) (taper_height q)
       (tip_height q + taper_height q) (lead_length q)"
    unfolding xy_tip_polygon_tapered using assms by (intro pts_tapered) simp_all
  have 2: "pts sb (xy_pocket q) = taper_region (trace_width q / 2 + trace_gap q) (tip_width q / 2 + tip_gap q)
       (taper_height q) (tip_height q + taper_height q + tip_gap q) (lead_length q)"
    unfolding xy_pocket_tapered using assms by (intro pts_tapered) simp_all
  have "pts sb (xy_tip_polygon q) \<subseteq> pts sb (xy_pocket q)"
    unfolding 1 2 using assms by (intro taper_region_mono) simp_all
  then show ?thesis by auto
qed

lemma mem_translate_iff: "(x, y) \<in> translate_pt dx dy ` S \<longleftrightarrow> (x - dx, y - dy) \<in> S"
proof
  assume "(x, y) \<in> translate_pt dx dy ` S"
  then obtain u v where "(u, v) \<in> S" "(x, y) = translate_pt dx dy (u, v)" by auto
  then show "(x - dx, y - dy) \<in> S" by simp
next
  assume "(x - dx, y - dy) \<in> S"
  moreover have "(x, y) = translate_pt dx dy (x - dx, y - dy)" by simp
  ultimately show "(x, y) \<in> translate_pt dx dy ` S" by (rule rev_image_eqI)
qed

subsection \<open>The wedge of the claw\<close>

lemma kite_not_crossing:
  fixes u v R :: real
  assumes "0 < u" "0 < v" "u < R"
  shows "\<not> ring_crosses [(0, 0), (u, - v), (R, 0), (u, v)]"
proof -
  have a: "0 < v * R" "0 < u * v" "0 < v * (R - u)" using assms by simp_all
  show ?thesis
    using a assms
    by (simp add: ring_crosses_def ring_edges_def properly_cross_def orient_def
        mult_less_0_iff zero_less_mult_iff algebra_simps not_less)
qed

lemma wedge_at_90:
  fixes r e t :: real
  shows "[(0, 0),
          (r * cos (- pi / 2 + 90 * pi / 180 - t), r * sin (- pi / 2 + 90 * pi / 180 - t)),
          ((r + e) * cos (- pi / 2 + 90 * pi / 180), (r + e) * sin (pi / 2 + 90 * pi / 180)),
          (r * cos (- pi / 2 + 90 * pi / 180 + t), r * sin (- pi / 2 + 90 * pi / 180 + t))]
         = [(0, 0), (r * cos t, - (r * sin t)), (r + e, 0), (r * cos t, r * sin t)]"
proof -
  have a: "- pi / 2 + 90 * pi / 180 - t = - t" "- pi / 2 + 90 * pi / 180 = 0"
    "pi / 2 + 90 * pi / 180 = pi" "- pi / 2 + 90 * pi / 180 + t = t"
    by simp_all
  show ?thesis unfolding a by simp
qed

lemma wedge_ok:
  fixes r e arc :: real
  assumes r: "0 < r" and arc: "0 < arc" "arc < pi * r" and e: "0 \<le> e"
  shows "\<not> ring_crosses
          [(0, 0),
           (r * cos (- pi / 2 + 90 * pi / 180 - arc / r / 2), r * sin (- pi / 2 + 90 * pi / 180 - arc / r / 2)),
           ((r + e) * cos (- pi / 2 + 90 * pi / 180), (r + e) * sin (pi / 2 + 90 * pi / 180)),
           (r * cos (- pi / 2 + 90 * pi / 180 + arc / r / 2), r * sin (- pi / 2 + 90 * pi / 180 + arc / r / 2))]"
proof -
  let ?t = "arc / r / 2"
  have t0: "0 < ?t" using r arc by simp
  have "arc / r < pi" using r arc by (simp add: pos_divide_less_eq)
  then have t1: "?t < pi / 2" by simp
  have c: "0 < cos ?t" by (rule cos_gt_zero[OF t0 t1])
  have s: "0 < sin ?t" using t0 t1 pi_gt_zero by (intro sin_gt_zero) linarith+
  have c1: "cos ?t < 1" using cos_monotone_0_pi[of 0 ?t] t0 t1 pi_gt_zero by simp
  have u: "0 < r * cos ?t" using r c by simp
  have v: "0 < r * sin ?t" using r s by simp
  have "r * cos ?t < r * 1" using r c1 by (intro mult_strict_left_mono)
  then have R: "r * cos ?t < r + e" using e by simp
  show ?thesis unfolding wedge_at_90 by (rule kite_not_crossing[OF u v R])
qed

lemma claw_wedge_ok:
  assumes "res_angle pc = 90" "0 < claw_r p pc" "0 < res_arc pc" "res_arc pc < pi * claw_r p pc"
    "0 \<le> res_ext pc"
  shows "\<not> ring_crosses (claw_wedge p pc)"
  using wedge_ok[OF assms(2,3,4,5)] by (simp add: claw_wedge_def claw_theta_def assms(1) Let_def)

lemma grounded_wedge_ok:
  assumes "res_angle pc = 90" "0 < grounded_r p pc" "0 < res_arc pc" "res_arc pc < pi * grounded_r p pc"
    "0 \<le> res_ext pc"
  shows "\<not> ring_crosses (grounded_wedge p pc)"
  using wedge_ok[OF assms(2,3,4,5)] by (simp add: grounded_wedge_def grounded_theta_def assms(1) Let_def)

subsection \<open>The polygon of a buffered point\<close>

lemma cs2:
  fixes x y c s :: real
  assumes "c\<^sup>2 + s\<^sup>2 = 1"
  shows "(x * c + y * s)\<^sup>2 \<le> x\<^sup>2 + y\<^sup>2"
proof -
  have "x\<^sup>2 + y\<^sup>2 - (x * c + y * s)\<^sup>2 = (x\<^sup>2 + y\<^sup>2) * (c\<^sup>2 + s\<^sup>2) - (x * c + y * s)\<^sup>2"
    using assms by simp
  also have "\<dots> = (x * s - y * c)\<^sup>2" by (simp add: power2_eq_square algebra_simps)
  finally have "x\<^sup>2 + y\<^sup>2 - (x * c + y * s)\<^sup>2 = (x * s - y * c)\<^sup>2" .
  moreover have "0 \<le> (x * s - y * c)\<^sup>2" by simp
  ultimately show ?thesis by linarith
qed

lemma disc_in_circle_polygon:
  fixes x y r :: real
  assumes d: "x\<^sup>2 + y\<^sup>2 \<le> a\<^sup>2" and a: "0 \<le> a" "a \<le> r * cos (pi / real n)"
  shows "(x, y) \<in> circle_polygon (0, 0) r n"
proof -
  have "x * cos t + y * sin t \<le> r * cos (pi / real n)" for t :: real
  proof -
    have "(x * cos t + y * sin t)\<^sup>2 \<le> x\<^sup>2 + y\<^sup>2" by (rule cs2) simp
    then have "(x * cos t + y * sin t)\<^sup>2 \<le> a\<^sup>2" using d by linarith
    then have "\<bar>x * cos t + y * sin t\<bar> \<le> a" using a(1) by (metis abs_le_square_iff abs_of_nonneg)
    then show ?thesis using a(2) by linarith
  qed
  then show ?thesis by (simp add: circle_polygon_def)
qed

lemma circle_polygon_mono:
  assumes "r \<le> R" "0 \<le> cos (pi / real n)"
  shows "circle_polygon c r n \<subseteq> circle_polygon c R n"
proof -
  have "r * cos (pi / real n) \<le> R * cos (pi / real n)" using assms by (rule mult_right_mono)
  then show ?thesis unfolding circle_polygon_def by fastforce
qed

lemma cos_pi_64: "sqrt 3 / 2 \<le> cos (pi / 64)" "0 < cos (pi / 64)"
proof -
  have "cos (pi / 6) \<le> cos (pi / 64)"
    using pi_gt_zero by (intro cos_monotone_0_pi_le) simp_all
  then show a: "sqrt 3 / 2 \<le> cos (pi / 64)" by (simp add: cos_30)
  have "0 < sqrt 3 / 2" by simp
  then show "0 < cos (pi / 64)" using a by linarith
qed

lemma south_angles:
  "cos (95 * pi / 64) = - sin (pi / 64)" "sin (95 * pi / 64) = - cos (pi / 64)"
  "cos (97 * pi / 64) = sin (pi / 64)" "sin (97 * pi / 64) = - cos (pi / 64)"
proof -
  have e1: "95 * pi / 64 = 3 / 2 * pi - pi / 64" and e2: "97 * pi / 64 = 3 / 2 * pi + pi / 64"
    by simp_all
  have d1: "cos (3 / 2 * pi - pi / 64) = - sin (pi / 64)" "sin (3 / 2 * pi - pi / 64) = - cos (pi / 64)"
    unfolding cos_diff sin_diff cos_3over2_pi sin_3over2_pi by simp_all
  have d2: "cos (3 / 2 * pi + pi / 64) = sin (pi / 64)" "sin (3 / 2 * pi + pi / 64) = - cos (pi / 64)"
    unfolding cos_add sin_add cos_3over2_pi sin_3over2_pi by simp_all
  show "cos (95 * pi / 64) = - sin (pi / 64)" by (rule trans[OF arg_cong[OF e1, of cos] d1(1)])
  show "sin (95 * pi / 64) = - cos (pi / 64)" by (rule trans[OF arg_cong[OF e1, of sin] d1(2)])
  show "cos (97 * pi / 64) = sin (pi / 64)" by (rule trans[OF arg_cong[OF e2, of cos] d2(1)])
  show "sin (97 * pi / 64) = - cos (pi / 64)" by (rule trans[OF arg_cong[OF e2, of sin] d2(2)])
qed

lemma circle_polygon_south:
  assumes "(x, y) \<in> circle_polygon (0, 0) r 64"
  shows "- r \<le> y"
proof -
  have all: "\<forall>k<64. x * cos ((2 * real k + 1) * pi / 64) + y * sin ((2 * real k + 1) * pi / 64) \<le> r * cos (pi / 64)"
    using assms by (simp add: circle_polygon_def)
  have "(47::nat) < 64" by simp
  from all[rule_format, OF this]
  have k1: "x * cos (95 * pi / 64) + y * sin (95 * pi / 64) \<le> r * cos (pi / 64)" by simp
  have "(48::nat) < 64" by simp
  from all[rule_format, OF this]
  have k2: "x * cos (97 * pi / 64) + y * sin (97 * pi / 64) \<le> r * cos (pi / 64)" by simp
  have "(- y) * cos (pi / 64) \<le> r * cos (pi / 64)"
    using k1 k2 unfolding south_angles by linarith
  then have "- y \<le> r" using cos_pi_64(2) by (simp only: mult_le_cancel_right_pos)
  then show ?thesis by simp
qed

lemma apothem_fit:
  fixes R :: real
  assumes "A \<le> (R * cos (pi / 64))\<^sup>2"
  shows "A \<le> R\<^sup>2"
proof -
  have "\<bar>cos (pi / 64)\<bar> \<le> 1" by (rule abs_cos_le_one)
  then have "(cos (pi / 64))\<^sup>2 \<le> 1\<^sup>2" by (rule sq_mono)
  then have "R\<^sup>2 * (cos (pi / 64))\<^sup>2 \<le> R\<^sup>2 * 1" by (intro mult_left_mono) simp_all
  then show ?thesis using assms by (simp add: power_mult_distrib)
qed

lemma turtle_polygon_contained:
  assumes g: "0 \<le> g"
  shows "circle_polygon (0, 0) r 64 \<subseteq> circle_polygon (0, 0) (r + g) 64"
  using g cos_pi_64(2) by (intro circle_polygon_mono) simp_all

lemma turtle_simulate_polygon_contained:
  assumes r: "0 \<le> r" and g: "1 / 1000 < g"
    and fit: "(w / 2)\<^sup>2 + (r + 1 / 2000)\<^sup>2 \<le> ((r + g) * cos (pi / 64))\<^sup>2"
  shows "circle_polygon (0, 0) r 64 \<union> pts sb (Translate (rectangle w (1 / 1000)) 0 (- r))
         \<subseteq> circle_polygon (0, 0) (r + g) 64 - pts sb (Translate (rectangle w (1 / 1000)) 0 (- (r + g)))"
proof -
  have r1: "pts sb (Translate (rectangle w (1 / 1000)) 0 (- r)) = {(x, y). \<bar>x\<bar> \<le> \<bar>w\<bar> / 2 \<and> \<bar>y + r\<bar> \<le> 1 / 2000}"
    using pts_launch_rectangle[of sb w "1 / 1000" r] by simp
  have r2: "pts sb (Translate (rectangle w (1 / 1000)) 0 (- (r + g))) = {(x, y). \<bar>x\<bar> \<le> \<bar>w\<bar> / 2 \<and> \<bar>y + (r + g)\<bar> \<le> 1 / 2000}"
    using pts_launch_rectangle[of sb w "1 / 1000" "r + g"] by simp
  have a0: "0 \<le> (r + g) * cos (pi / 64)" using r g cos_pi_64(2) by simp
  have "(x, y) \<in> circle_polygon (0, 0) (r + g) 64 \<and> \<not> (\<bar>x\<bar> \<le> \<bar>w\<bar> / 2 \<and> \<bar>y + (r + g)\<bar> \<le> 1 / 2000)"
    if h: "(x, y) \<in> circle_polygon (0, 0) r 64 \<or> (\<bar>x\<bar> \<le> \<bar>w\<bar> / 2 \<and> \<bar>y + r\<bar> \<le> 1 / 2000)" for x y
    using h
  proof
    assume i: "(x, y) \<in> circle_polygon (0, 0) r 64"
    have "0 \<le> g" using g by simp
    then have 1: "(x, y) \<in> circle_polygon (0, 0) (r + g) 64"
      using i turtle_polygon_contained[of g r] by blast
    have "- r \<le> y" using i by (rule circle_polygon_south)
    then have "\<not> \<bar>y + (r + g)\<bar> \<le> 1 / 2000" using g by linarith
    then show ?thesis using 1 by simp
  next
    assume rect: "\<bar>x\<bar> \<le> \<bar>w\<bar> / 2 \<and> \<bar>y + r\<bar> \<le> 1 / 2000"
    have "x\<^sup>2 \<le> (\<bar>w\<bar> / 2)\<^sup>2" using rect by (intro sq_mono) simp
    then have x: "x\<^sup>2 \<le> (w / 2)\<^sup>2" by (simp add: power_divide)
    have "\<bar>y\<bar> \<le> r + 1 / 2000" using rect r by linarith
    then have y: "y\<^sup>2 \<le> (r + 1 / 2000)\<^sup>2" by (rule sq_mono)
    have d: "x\<^sup>2 + y\<^sup>2 \<le> ((r + g) * cos (pi / 64))\<^sup>2" using x y fit by linarith
    have 1: "(x, y) \<in> circle_polygon (0, 0) (r + g) 64"
      using d a0 by (rule disc_in_circle_polygon) simp
    have "\<not> \<bar>y + (r + g)\<bar> \<le> 1 / 2000" using rect g by linarith
    then show ?thesis using 1 by simp
  qed
  then show ?thesis unfolding r1 r2 by (intro subsetI) (auto simp only: split_paired_all Un_iff Diff_iff mem_Collect_eq prod.case)
qed

subsection \<open>A single connection pad\<close>

lemma make_single_claw:
  assumes pads: "connection_pads p = [(n, pc)]" and g: "\<not> res_g pc"
    and l: "claw_local p pc = Inr (a, b, c)"
  shows "registered_shape ''res_claw'' (TurtleQubit_make p render_mode empty_host)
           = Some (Translate (Rotate a (rotation p) (0, 0)) (pos_x p) (pos_y p))"
proof -
  obtain cs where c: "coords c = Some cs" using claw_local_port(1)[OF l] by blast
  show ?thesis
    by (simp add: registered_shape_def TurtleQubit_make_def make_turtle_def pads g make_claw_def l
        register_claw_def c rotate_all_def translate_all_def add_pin_def add_qgeometry_def
        empty_host_def Let_def split: prod.splits)
qed

lemma make_single_grounded_claw:
  assumes pads: "connection_pads p = [(n, pc)]" and g: "res_g pc"
    and l: "grounded_local p pc = Inr (a, b, c)"
  shows "registered_shape ''res_claw'' (TurtleQubit_make p render_mode empty_host)
           = Some (Translate (Rotate a (rotation p) (0, 0)) (pos_x p) (pos_y p))"
proof -
  obtain cs where c: "coords c = Some cs" using claw_local_port(2)[OF l] by blast
  show ?thesis
    by (simp add: registered_shape_def TurtleQubit_make_def make_turtle_def pads g make_grounded_claw_def l
        register_claw_def c rotate_all_def translate_all_def add_pin_def add_qgeometry_def
        empty_host_def Let_def split: prod.splits)
qed

lemma claw_local_value:
  assumes "claw_r p pc \<noteq> 0" "\<not> ring_crosses (claw_wedge p pc)"
  shows "\<exists>b c. claw_local p pc =
     Inr (Union_shape (round_claw (res_claw_rounding pc) (claw_stroke p pc))
            (Rotate (Translate (rectangle (cpw_width pc) (res_ext pc + 0.5 * res_claw_width pc)) 0
                       (- (rad_i p + res_dist pc + 0.5 * (res_claw_width pc + res_ext pc))))
               (res_angle pc) (0, 0)), b, c)"
  using assms by (simp add: claw_local_def claw_arm_def rotate_all_def translate_all_def Let_def)

lemma grounded_local_value:
  assumes "grounded_r p pc \<noteq> 0" "\<not> ring_crosses (grounded_wedge p pc)"
  shows "\<exists>b c. grounded_local p pc =
     Inr (Union_shape (grounded_stroke p pc)
            (Rotate (Translate (rectangle (cpw_width pc) (res_ext pc + 0.5 * res_claw_width pc)) 0
                       (- (rad_i p + res_dist pc + 0.5 * (res_claw_width pc + res_ext pc)
                           + res_s pc + res_g_s pc)))
               (res_angle pc) (0, 0)), b, c)"
  using assms by (simp add: grounded_local_def grounded_arm_def rotate_all_def translate_all_def Let_def)

subsection \<open>Corner squares and the fillet sequence\<close>

lemma crosses_horizontal:
  "crosses (x, y) ((a, b), (c, b)) \<longleftrightarrow> ((a \<le> x \<and> x < c) \<or> (c \<le> x \<and> x < a)) \<and> y < b"
  by simp

lemma crosses_vertical: "\<not> crosses (x, y) ((a, b), (a, d))"
  by simp

lemma in_box:
  "in_polygon (x, y) [(a, b), (c, b), (c, d), (a, d)]
   \<longleftrightarrow> min a c \<le> x \<and> x \<le> max a c \<and> min b d \<le> y \<and> y \<le> max b d"
proof -
  have e: "ring_edges [(a, b), (c, b), (c, d), (a, d)] =
      [((a, b), (c, b)), ((c, b), (c, d)), ((c, d), (a, d)), ((a, d), (a, b))]"
    by (simp add: ring_edges_def)
  have s: "list_ex (on_segment (x, y)) (ring_edges [(a, b), (c, b), (c, d), (a, d)]) \<longleftrightarrow>
      (y = b \<and> min a c \<le> x \<and> x \<le> max a c) \<or> (x = c \<and> min b d \<le> y \<and> y \<le> max b d)
      \<or> (y = d \<and> min c a \<le> x \<and> x \<le> max c a) \<or> (x = a \<and> min d b \<le> y \<and> y \<le> max d b)"
    unfolding e list_ex_Cons_iff list_ex_Nil_iff seg_horizontal seg_vertical by simp
  have c: "odd (length (filter (crosses (x, y)) (ring_edges [(a, b), (c, b), (c, d), (a, d)]))) \<longleftrightarrow>
      ((a \<le> x \<and> x < c) \<or> (c \<le> x \<and> x < a)) \<and> (y < b \<longleftrightarrow> \<not> y < d)"
    unfolding e by (simp only: filter.simps crosses_horizontal crosses_vertical if_False) auto
  show ?thesis unfolding in_polygon_def s c by (auto simp: min_def max_def)
qed

lemma d2_sym: "d2 p q = d2 q p"
  by (simp add: d2_def power2_commute)

lemma opening_removes:
  assumes r: "0 \<le> r" and p: "p \<in> A"
    and near: "\<And>q. q \<in> A \<Longrightarrow> d2 p q \<le> r\<^sup>2 \<Longrightarrow> \<exists>s. s \<notin> A \<and> d2 q s \<le> r\<^sup>2"
  shows "p \<notin> dilate (dilate A (2 * r) - dilate (dilate A r - A) r) r"
proof
  assume "p \<in> dilate (dilate A (2 * r) - dilate (dilate A r - A) r) r"
  then obtain q where q: "q \<notin> dilate (dilate A r - A) r" and pq: "d2 p q \<le> r\<^sup>2"
    using r unfolding dilate_def[of "dilate A (2 * r) - dilate (dilate A r - A) r" r] by auto
  have "\<exists>s. s \<in> dilate A r - A \<and> d2 q s \<le> r\<^sup>2"
  proof (cases "q \<in> A")
    case True
    from near[OF True pq] obtain s where s: "s \<notin> A" "d2 q s \<le> r\<^sup>2" by blast
    have "d2 s q \<le> r\<^sup>2" using s(2) by (simp add: d2_sym[of s q])
    then have "s \<in> dilate A r" using r True unfolding dilate_def[of A r] by auto
    then show ?thesis using s by blast
  next
    case False
    have "d2 q p \<le> r\<^sup>2" using pq by (simp add: d2_sym[of q p])
    then have "q \<in> dilate A r" using r p unfolding dilate_def[of A r] by auto
    moreover have "d2 q q \<le> r\<^sup>2" by (simp add: d2_def)
    ultimately show ?thesis using False by blast
  qed
  then have "q \<in> dilate (dilate A r - A) r"
    using r unfolding dilate_def[of "dilate A r - A" r] by auto
  then show False using q by blast
qed

lemma pts_round_claw:
  "pts sb (round_claw r s) =
     pts sb s \<inter> dilate (dilate (pts sb s) (2 * r) - dilate (dilate (pts sb s) r - pts sb s) r) r"
  by (simp add: round_claw_def buffer_def Let_def)

lemma sq_small: fixes a :: real shows "a\<^sup>2 + b\<^sup>2 \<le> r\<^sup>2 \<Longrightarrow> 0 \<le> r \<Longrightarrow> \<bar>a\<bar> \<le> r"
proof -
  assume h: "a\<^sup>2 + b\<^sup>2 \<le> r\<^sup>2" and r: "0 \<le> r"
  have "0 \<le> b\<^sup>2" by simp
  then have "a\<^sup>2 \<le> r\<^sup>2" using h by linarith
  then show "\<bar>a\<bar> \<le> r" using r by (metis abs_le_square_iff abs_of_nonneg)
qed

lemma pts_corner_box:
  assumes "0 \<le> f"
  shows "pts sb (Polygon [(- (E - f), b), (- E, b), (- E, b - f), (- (E - f), b - f)])
           = {(x, y). - E \<le> x \<and> x \<le> - E + f \<and> b - f \<le> y \<and> y \<le> b}"
    and "pts sb (Polygon [(- (E - f), - b), (- E, - b), (- E, - (b - f)), (- (E - f), - (b - f))])
           = {(x, y). - E \<le> x \<and> x \<le> - E + f \<and> - b \<le> y \<and> y \<le> - b + f}"
  using assms by (auto simp: in_box min_def max_def split: if_splits)

lemma pts_corner_disc:
  assumes "0 \<le> f"
  shows "pts sb (buffer (Point (- (E - f)) (b - f)) f) = {(x, y). (x + E - f)\<^sup>2 + (y - b + f)\<^sup>2 \<le> f\<^sup>2}"
    and "pts sb (buffer (Point (- (E - f)) (- (b - f))) f) = {(x, y). (x + E - f)\<^sup>2 + (y + b - f)\<^sup>2 \<le> f\<^sup>2}"
proof -
  have a: "x - - (E - f) = x + E - f" "y - (b - f) = y - b + f" "y - - (b - f) = y + b - f" for x y :: real
    by simp_all
  show "pts sb (buffer (Point (- (E - f)) (b - f)) f) = {(x, y). (x + E - f)\<^sup>2 + (y - b + f)\<^sup>2 \<le> f\<^sup>2}"
    unfolding pts_disc[OF assms] a ..
  show "pts sb (buffer (Point (- (E - f)) (- (b - f))) f) = {(x, y). (x + E - f)\<^sup>2 + (y + b - f)\<^sup>2 \<le> f\<^sup>2}"
    unfolding pts_disc[OF assms] a ..
qed

lemma d2_near:
  assumes "d2 (px, py) (qx, qy) \<le> f\<^sup>2" "0 \<le> f"
  shows "\<bar>px - qx\<bar> \<le> f" "\<bar>py - qy\<bar> \<le> f"
proof -
  have a: "(px - qx)\<^sup>2 + (py - qy)\<^sup>2 \<le> f\<^sup>2" using assms(1) by (simp add: d2_def)
  then have b: "(py - qy)\<^sup>2 + (px - qx)\<^sup>2 \<le> f\<^sup>2" by linarith
  show "\<bar>px - qx\<bar> \<le> f" by (rule sq_small[OF a assms(2)])
  show "\<bar>py - qy\<bar> \<le> f" by (rule sq_small[OF b assms(2)])
qed

lemma mem_dilate: "0 \<le> d \<Longrightarrow> p \<in> dilate S d \<longleftrightarrow> (\<exists>q\<in>S. d2 p q \<le> d\<^sup>2)"
  by (simp add: dilate_def)

text \<open>
  Where a set has a square corner with room for a disc of radius \<open>f\<close>, the fillet sequence
  keeps, of the corner square, exactly the points within \<open>f\<close> of the square's inner corner.
\<close>

lemma corner_opening:
  fixes A :: "point set" and f E b px py :: real
  assumes f: "0 < f"
    and box: "\<And>x y. - E \<le> x \<Longrightarrow> x \<le> - E + 2 * f \<Longrightarrow> b - 2 * f \<le> y \<Longrightarrow> y \<le> b \<Longrightarrow> (x, y) \<in> A"
    and left: "\<And>x y. x < - E \<Longrightarrow> (x, y) \<notin> A"
    and top: "\<And>x y. x \<le> - E + 2 * f \<Longrightarrow> b < y \<Longrightarrow> (x, y) \<notin> A"
    and p: "- E \<le> px" "px \<le> - E + f" "b - f \<le> py" "py \<le> b"
  shows "(px, py) \<in> dilate (dilate A (2 * f) - dilate (dilate A f - A) f) f
         \<longleftrightarrow> (px + E - f)\<^sup>2 + (py - b + f)\<^sup>2 \<le> f\<^sup>2"
proof
  let ?K = "dilate A (2 * f) - dilate (dilate A f - A) f"
  have f0: "0 \<le> f" "0 \<le> 2 * f" using f by simp_all
  have pA: "(px, py) \<in> A" using p f by (intro box) linarith+
  {
    assume "(px, py) \<in> dilate ?K f"
    then obtain q where qK: "q \<in> ?K" and pq: "d2 (px, py) q \<le> f\<^sup>2"
      unfolding mem_dilate[OF f0(1)] by blast
    obtain qx qy where q: "q = (qx, qy)" by (cases q)
    note n = d2_near[OF pq[unfolded q] f0(1)]
    have qn: "(qx, qy) \<notin> dilate (dilate A f - A) f" using qK q by blast
    have free: "s \<in> A" if "d2 (qx, qy) s \<le> f\<^sup>2" "s \<in> dilate A f" for s
      using qn that unfolding mem_dilate[OF f0(1), of "(qx, qy)"] by blast
    have qA: "(qx, qy) \<in> A"
    proof -
      have "d2 (qx, qy) (px, py) \<le> f\<^sup>2" using pq q by (simp add: d2_sym[of "(qx, qy)"])
      then have "(qx, qy) \<in> dilate A f" using pA unfolding mem_dilate[OF f0(1)] by blast
      moreover have "d2 (qx, qy) (qx, qy) \<le> f\<^sup>2" by (simp add: d2_def)
      ultimately show ?thesis by (intro free)
    qed
    have near: "s \<in> A" if "d2 (qx, qy) s \<le> f\<^sup>2" for s
    proof -
      have "d2 s (qx, qy) \<le> f\<^sup>2" using that by (simp add: d2_sym[of s])
      then have "s \<in> dilate A f" using qA unfolding mem_dilate[OF f0(1)] by blast
      then show ?thesis using that by (intro free)
    qed
    have x: "- E + f \<le> qx"
    proof (rule ccontr)
      assume "\<not> - E + f \<le> qx"
      then have "qx - f < - E" by simp
      then have "(qx - f, qy) \<notin> A" by (rule left)
      moreover have "d2 (qx, qy) (qx - f, qy) \<le> f\<^sup>2" by (simp add: d2_def)
      ultimately show False using near by blast
    qed
    have y: "qy \<le> b - f"
    proof (rule ccontr)
      assume "\<not> qy \<le> b - f"
      then have "b < qy + f" by simp
      moreover have "qx \<le> - E + 2 * f" using n(1) p by linarith
      ultimately have "(qx, qy + f) \<notin> A" by (intro top)
      moreover have "d2 (qx, qy) (qx, qy + f) \<le> f\<^sup>2" by (simp add: d2_def)
      ultimately show False using near by blast
    qed
    have "\<bar>px + E - f\<bar> \<le> \<bar>px - qx\<bar>" using x p by linarith
    then have a: "(px + E - f)\<^sup>2 \<le> (px - qx)\<^sup>2" by (simp add: abs_le_square_iff)
    have "\<bar>py - b + f\<bar> \<le> \<bar>py - qy\<bar>" using y p by linarith
    then have b: "(py - b + f)\<^sup>2 \<le> (py - qy)\<^sup>2" by (simp add: abs_le_square_iff)
    have "(px - qx)\<^sup>2 + (py - qy)\<^sup>2 \<le> f\<^sup>2" using pq q by (simp add: d2_def)
    then show "(px + E - f)\<^sup>2 + (py - b + f)\<^sup>2 \<le> f\<^sup>2" using a b by linarith
  }
  {
    assume d: "(px + E - f)\<^sup>2 + (py - b + f)\<^sup>2 \<le> f\<^sup>2"
    let ?c = "(- E + f, b - f) :: point"
    have cA: "?c \<in> A" using f by (intro box) linarith+
    have "d2 ?c ?c \<le> (2 * f)\<^sup>2" by (simp add: d2_def)
    then have c2: "?c \<in> dilate A (2 * f)" using cA unfolding mem_dilate[OF f0(2)] by blast
    have cn: "?c \<notin> dilate (dilate A f - A) f"
    proof
      assume "?c \<in> dilate (dilate A f - A) f"
      then obtain s where s: "s \<notin> A" and cs: "d2 ?c s \<le> f\<^sup>2"
        unfolding mem_dilate[OF f0(1), of ?c] by blast
      obtain sx sy where s': "s = (sx, sy)" by (cases s)
      note n = d2_near[OF cs[unfolded s'] f0(1)]
      have "(sx, sy) \<in> A" using n by (intro box) linarith+
      then show False using s s' by simp
    qed
    have "d2 (px, py) ?c \<le> f\<^sup>2"
    proof -
      have e: "px - (- E + f) = px + E - f" "py - (b - f) = py - b + f" by simp_all
      show ?thesis unfolding d2_def fst_conv snd_conv e by (rule d)
    qed
    then show "(px, py) \<in> dilate ?K f" using c2 cn unfolding mem_dilate[OF f0(1), of "(px, py)"] by blast
  }
qed

lemma dilate_flip:
  assumes S: "\<And>x y. (x, y) \<in> S \<Longrightarrow> (x, - y) \<in> S" and d: "0 \<le> d" and p: "(x, y) \<in> dilate S d"
  shows "(x, - y) \<in> dilate S d"
proof -
  from p obtain q where q: "q \<in> S" "d2 (x, y) q \<le> d\<^sup>2" unfolding mem_dilate[OF d] by blast
  obtain qx qy where q': "q = (qx, qy)" by (cases q)
  have "(qx, - qy) \<in> S" using q(1) q' S by simp
  moreover have "d2 (x, - y) (qx, - qy) = d2 (x, y) (qx, qy)"
    by (simp add: d2_def power2_commute[of "qy" "y"])
  then have "d2 (x, - y) (qx, - qy) \<le> d\<^sup>2" using q(2) q' by simp
  ultimately show ?thesis unfolding mem_dilate[OF d] by blast
qed

lemma diff_flip:
  fixes S T :: "point set"
  assumes S: "\<And>x y. (x, y) \<in> S \<Longrightarrow> (x, - y) \<in> S" and T: "\<And>x y. (x, y) \<in> T \<Longrightarrow> (x, - y) \<in> T"
    and p: "(x, y) \<in> S - T"
  shows "(x, - y) \<in> S - T"
proof -
  have "(x, - y) \<in> S" using p S by blast
  moreover have "(x, - y) \<notin> T"
  proof
    assume "(x, - y) \<in> T"
    then have "(x, - (- y)) \<in> T" by (rule T)
    then show False using p by simp
  qed
  ultimately show ?thesis by blast
qed

lemma opening_flip:
  assumes A: "\<And>x y. (x, y) \<in> A \<Longrightarrow> (x, - y) \<in> A" and f: "0 \<le> f"
    and p: "(x, y) \<in> dilate (dilate A (2 * f) - dilate (dilate A f - A) f) f"
  shows "(x, - y) \<in> dilate (dilate A (2 * f) - dilate (dilate A f - A) f) f"
proof -
  have f2: "0 \<le> 2 * f" using f by simp
  have 1: "(x, - y) \<in> dilate A (2 * f)" if "(x, y) \<in> dilate A (2 * f)" for x y
    using A f2 that by (rule dilate_flip)
  have 2: "(x, - y) \<in> dilate A f" if "(x, y) \<in> dilate A f" for x y
    using A f that by (rule dilate_flip)
  have 3: "(x, - y) \<in> dilate A f - A" if "(x, y) \<in> dilate A f - A" for x y
    using 2 A that by (rule diff_flip)
  have 4: "(x, - y) \<in> dilate (dilate A f - A) f" if "(x, y) \<in> dilate (dilate A f - A) f" for x y
    using 3 f that by (rule dilate_flip)
  have 5: "(x, - y) \<in> dilate A (2 * f) - dilate (dilate A f - A) f"
    if "(x, y) \<in> dilate A (2 * f) - dilate (dilate A f - A) f" for x y
    using 1 4 that by (rule diff_flip)
  show ?thesis using 5 f p by (rule dilate_flip)
qed

lemma taper_region_flip: "(x, y) \<in> taper_region a b T E L \<Longrightarrow> (x, - y) \<in> taper_region a b T E L"
  by (simp add: taper_region_def)

lemma taper_corner:
  fixes a b T E L f :: real
  assumes f: "0 < f" "f < b" "2 * f \<le> E - T" and T: "0 < T"
    and p: "- E \<le> px" "px \<le> - E + f" "b - f \<le> \<bar>py\<bar>" "\<bar>py\<bar> \<le> b"
  shows "(px, py) \<in> dilate (dilate (taper_region a b T E L) (2 * f)
            - dilate (dilate (taper_region a b T E L) f - taper_region a b T E L) f) f
         \<longleftrightarrow> (px + E - f)\<^sup>2 + (\<bar>py\<bar> - b + f)\<^sup>2 \<le> f\<^sup>2"
proof -
  let ?A = "taper_region a b T E L"
  let ?O = "dilate (dilate ?A (2 * f) - dilate (dilate ?A f - ?A) f) f"
  have box: "(x, y) \<in> ?A" if "- E \<le> x" "x \<le> - E + 2 * f" "b - 2 * f \<le> y" "y \<le> b" for x y
  proof -
    have "x \<le> - T" "\<bar>y\<bar> \<le> b" using that f by linarith+
    then show ?thesis using that(1) by (simp add: taper_region_def)
  qed
  have left: "(x, y) \<notin> ?A" if "x < - E" for x y
  proof -
    have "x < - T" "x < 0" using that f T by linarith+
    then show ?thesis using that by (simp add: taper_region_def)
  qed
  have top: "(x, y) \<notin> ?A" if "x \<le> - E + 2 * f" "b < y" for x y
  proof -
    have x: "x \<le> - T" "x < 0" using that f T by linarith+
    have "\<not> \<bar>y\<bar> \<le> b" using that by linarith
    moreover have "\<not> \<bar>y\<bar> \<le> a + x * (a - b) / T" if "- T \<le> x"
    proof -
      have "x = - T" using that x by simp
      then have "a + x * (a - b) / T = b" using T by simp
      then show ?thesis using \<open>\<not> \<bar>y\<bar> \<le> b\<close> by simp
    qed
    ultimately show ?thesis using x(2) by (auto simp: taper_region_def)
  qed
  have up: "(px, \<bar>py\<bar>) \<in> ?O \<longleftrightarrow> (px + E - f)\<^sup>2 + (\<bar>py\<bar> - b + f)\<^sup>2 \<le> f\<^sup>2"
    using f(1) box left top p by (rule corner_opening)
  have f0: "0 \<le> f" using f by simp
  have fl: "(x, - y) \<in> ?O" if "(x, y) \<in> ?O" for x y
    using taper_region_flip f0 that by (rule opening_flip)
  have "(px, py) \<in> ?O \<longleftrightarrow> (px, \<bar>py\<bar>) \<in> ?O"
  proof (cases "0 \<le> py")
    case True then show ?thesis by simp
  next
    case False
    then have e: "\<bar>py\<bar> = - py" by simp
    show ?thesis unfolding e using fl[of px py] fl[of px "- py"] by auto
  qed
  then show ?thesis using up by simp
qed

lemma pts_round_tip_negative:
  assumes f: "0 \<le> tip_fillet q"
  shows "pts sb (round_tip_negative q) =
          ({(x, y). - (tip_height q + taper_height q) \<le> x
                 \<and> x \<le> - (tip_height q + taper_height q) + tip_fillet q
                 \<and> tip_width q / 2 - tip_fillet q \<le> y \<and> y \<le> tip_width q / 2}
            - {(x, y). (x + (tip_height q + taper_height q) - tip_fillet q)\<^sup>2
                       + (y - tip_width q / 2 + tip_fillet q)\<^sup>2 \<le> (tip_fillet q)\<^sup>2})
          \<union> ({(x, y). - (tip_height q + taper_height q) \<le> x
                 \<and> x \<le> - (tip_height q + taper_height q) + tip_fillet q
                 \<and> - (tip_width q / 2) \<le> y \<and> y \<le> - (tip_width q / 2) + tip_fillet q}
            - {(x, y). (x + (tip_height q + taper_height q) - tip_fillet q)\<^sup>2
                       + (y + tip_width q / 2 - tip_fillet q)\<^sup>2 \<le> (tip_fillet q)\<^sup>2})"
  unfolding round_tip_negative_def Let_def pts.simps(6,8)
    pts_corner_box[OF f] pts_corner_disc[OF f] ..

section \<open>Cutouts contain the conductors\<close>

text \<open>
  Claim C1, as amended. With non-negative widths and gaps and positive lengths, every
  cutout a make pass registers contains the conductor it surrounds, except that the
  TurtleQubit pocket contains the island in the simulate render mode only when the gap is
  more than 1um and the junction-launch rectangle of the island fits in the 64-sided
  polygon that the library draws for the pocket disc (its edges are at the distance
  \<open>(rad_i + gap) * cos (pi / 64)\<close> from the centre):
  \<^item> the Pocket of make_turtle contains the Qubit island, in the simulate mode under the
    two conditions above; this holds of the discs and of their 64-sided polygons alike;
  \<^item> the poly5 gap of make_claw and of make_grounded_claw contains the res_claw coupler,
    whenever the pass registers them (it raises instead when \<open>r\<close> is zero or the wedge
    crosses itself);
  \<^item> the pocket of XYTip.make contains the xy_tip.
\<close>

theorem cutouts_contain_conductors:
  "(0 \<le> rad_i p \<and> 0 \<le> gap p
     \<and> (render_mode = ''simulate'' \<longrightarrow>
          1 / 1000 < gap p
          \<and> (jj_w p / 2)\<^sup>2 + (rad_i p + 1 / 2000)\<^sup>2 \<le> ((rad_i p + gap p) * cos (pi / 64))\<^sup>2)
    \<longrightarrow> registered_shape ''Qubit'' (make_turtle p render_mode empty_host) \<noteq> None
      \<and> registered_shape ''Pocket'' (make_turtle p render_mode empty_host) \<noteq> None
      \<and> registered_pts sb ''Qubit'' (make_turtle p render_mode empty_host)
          \<subseteq> registered_pts sb ''Pocket'' (make_turtle p render_mode empty_host)
      \<and> (render_mode = ''simulate'' \<longrightarrow>
          circle_polygon (0, 0) (rad_i p) 64
            \<union> pts sb (Translate (rectangle (jj_w p) (1 / 1000)) 0 (- rad_i p))
          \<subseteq> circle_polygon (0, 0) (rad_i p + gap p) 64
            - pts sb (Translate (rectangle (jj_w p) (1 / 1000)) 0 (- (rad_i p + gap p))))
      \<and> (render_mode \<noteq> ''simulate'' \<longrightarrow>
          circle_polygon (0, 0) (rad_i p) 64 \<subseteq> circle_polygon (0, 0) (rad_i p + gap p) 64))
   \<and> (0 \<le> res_s pc \<and> 0 \<le> cpw_width pc \<and> 0 \<le> cpw_gap pc
    \<longrightarrow> registered_pts sb ''res_claw'' (make_claw p name pc empty_host)
          \<subseteq> registered_pts sb ''poly5'' (make_claw p name pc empty_host)
      \<and> registered_pts sb ''res_claw'' (make_grounded_claw p name pc empty_host)
          \<subseteq> registered_pts sb ''poly5'' (make_grounded_claw p name pc empty_host))
   \<and> (0 < taper_height q \<and> 0 < tip_height q \<and> 0 < lead_length q
      \<and> 0 \<le> trace_width q \<and> 0 \<le> tip_width q \<and> 0 \<le> trace_gap q \<and> 0 \<le> tip_gap q
    \<longrightarrow> registered_shape ''xy_tip'' (XYTip_make q empty_host) \<noteq> None
      \<and> registered_shape ''pocket'' (XYTip_make q empty_host) \<noteq> None
      \<and> registered_pts sb ''xy_tip'' (XYTip_make q empty_host)
          \<subseteq> registered_pts sb ''pocket'' (XYTip_make q empty_host))"
proof (intro conjI impI)
  assume h: "0 \<le> rad_i p \<and> 0 \<le> gap p
     \<and> (render_mode = ''simulate'' \<longrightarrow>
          1 / 1000 < gap p
          \<and> (jj_w p / 2)\<^sup>2 + (rad_i p + 1 / 2000)\<^sup>2 \<le> ((rad_i p + gap p) * cos (pi / 64))\<^sup>2)"
  obtain a b c where l: "turtle_local p render_mode = (a, b, c)"
    by (cases "turtle_local p render_mode") auto
  note reg = make_turtle_registered[OF l]
  have sub: "pts sb a \<subseteq> pts sb b"
  proof (cases "render_mode = ''simulate''")
    case True
    then have "a = Union_shape (buffer (Point 0 0) (rad_i p)) (Translate (rectangle (jj_w p) (1 / 1000)) 0 (- rad_i p))"
      and "b = Subtract (buffer (Point 0 0) (rad_i p + gap p))
                 (Translate (rectangle (jj_w p) (1 / 1000)) 0 (- (rad_i p + gap p)))"
      using l by (auto simp: turtle_local_def Let_def)
    moreover have r: "0 \<le> rad_i p" and g: "1 / 1000 < gap p"
      and fit: "(jj_w p / 2)\<^sup>2 + (rad_i p + 1 / 2000)\<^sup>2 \<le> ((rad_i p + gap p) * cos (pi / 64))\<^sup>2"
      using h True by blast+
    ultimately show ?thesis
      using turtle_simulate_contained[OF r g apothem_fit[OF fit], of sb] by simp
  next
    case False
    then have "a = buffer (Point 0 0) (rad_i p)" and "b = buffer (Point 0 0) (rad_i p + gap p)"
      using l by (auto simp: turtle_local_def Let_def)
    then show ?thesis using disc_mono[of "rad_i p" "gap p" sb] h by simp
  qed
  show "registered_shape ''Qubit'' (make_turtle p render_mode empty_host) \<noteq> None"
    and "registered_shape ''Pocket'' (make_turtle p render_mode empty_host) \<noteq> None"
    unfolding reg by simp_all
  show "registered_pts sb ''Qubit'' (make_turtle p render_mode empty_host)
          \<subseteq> registered_pts sb ''Pocket'' (make_turtle p render_mode empty_host)"
    unfolding registered_pts_def reg option.case using place_mono[OF sub] by blast
  show "circle_polygon (0, 0) (rad_i p) 64
            \<union> pts sb (Translate (rectangle (jj_w p) (1 / 1000)) 0 (- rad_i p))
          \<subseteq> circle_polygon (0, 0) (rad_i p + gap p) 64
            - pts sb (Translate (rectangle (jj_w p) (1 / 1000)) 0 (- (rad_i p + gap p)))"
    if s: "render_mode = ''simulate''"
  proof -
    have r: "0 \<le> rad_i p" and g: "1 / 1000 < gap p"
      and fit: "(jj_w p / 2)\<^sup>2 + (rad_i p + 1 / 2000)\<^sup>2 \<le> ((rad_i p + gap p) * cos (pi / 64))\<^sup>2"
      using h s by blast+
    show ?thesis by (rule turtle_simulate_polygon_contained[OF r g fit])
  qed
  show "circle_polygon (0, 0) (rad_i p) 64 \<subseteq> circle_polygon (0, 0) (rad_i p + gap p) 64"
    if "render_mode \<noteq> ''simulate''"
  proof -
    have g: "0 \<le> gap p" using h by blast
    show ?thesis by (rule turtle_polygon_contained[OF g])
  qed
next
  assume h: "0 \<le> res_s pc \<and> 0 \<le> cpw_width pc \<and> 0 \<le> cpw_gap pc"
  show "registered_pts sb ''res_claw'' (make_claw p name pc empty_host)
          \<subseteq> registered_pts sb ''poly5'' (make_claw p name pc empty_host)"
  proof (cases "claw_local p pc")
    case (Inl e)
    then show ?thesis by (simp add: make_claw_def registered_pts_def registered_shape_def)
  next
    case (Inr loc)
    obtain a b c where loc: "loc = (a, b, c)" by (cases loc)
    note l = Inr[unfolded loc]
    obtain cs where c: "coords c = Some cs" using claw_local_port(1)[OF l] by blast
    have m: "make_claw p name pc empty_host = register_claw p name pc (a, b, c) empty_host"
      by (simp add: make_claw_def l)
    note reg = register_claw_registered[OF c, of p name pc a b]
    have sub: "pts sb a \<subseteq> pts sb b" using claw_local_contained[OF l] h by blast
    show ?thesis unfolding registered_pts_def m reg option.case using place_mono[OF sub] by blast
  qed
  show "registered_pts sb ''res_claw'' (make_grounded_claw p name pc empty_host)
          \<subseteq> registered_pts sb ''poly5'' (make_grounded_claw p name pc empty_host)"
  proof (cases "grounded_local p pc")
    case (Inl e)
    then show ?thesis by (simp add: make_grounded_claw_def registered_pts_def registered_shape_def)
  next
    case (Inr loc)
    obtain a b c where loc: "loc = (a, b, c)" by (cases loc)
    note l = Inr[unfolded loc]
    obtain cs where c: "coords c = Some cs" using claw_local_port(2)[OF l] by blast
    have m: "make_grounded_claw p name pc empty_host = register_claw p name pc (a, b, c) empty_host"
      by (simp add: make_grounded_claw_def l)
    note reg = register_claw_registered[OF c, of p name pc a b]
    have sub: "pts sb a \<subseteq> pts sb b" using grounded_local_contained[OF l] h by blast
    show ?thesis unfolding registered_pts_def m reg option.case using place_mono[OF sub] by blast
  qed
next
  assume h: "0 < taper_height q \<and> 0 < tip_height q \<and> 0 < lead_length q
      \<and> 0 \<le> trace_width q \<and> 0 \<le> tip_width q \<and> 0 \<le> trace_gap q \<and> 0 \<le> tip_gap q"
  note reg = XYTip_make_registered[of q]
  have sub: "pts sb (Subtract (xy_tip_polygon q) (round_tip_negative q)) \<subseteq> pts sb (xy_pocket q)"
    using h by (intro xy_tip_in_pocket) simp_all
  show "registered_shape ''xy_tip'' (XYTip_make q empty_host) \<noteq> None"
    and "registered_shape ''pocket'' (XYTip_make q empty_host) \<noteq> None"
    unfolding reg by simp_all
  show "registered_pts sb ''xy_tip'' (XYTip_make q empty_host)
          \<subseteq> registered_pts sb ''pocket'' (XYTip_make q empty_host)"
    unfolding registered_pts_def reg option.case using place_mono[OF sub] by blast
qed

text \<open>
  With the default options (a claw at 90 degrees) every pass registers its shapes, and
  the hypotheses hold: the launch rectangle reaches 125.6um from the centre, and the edges
  of the pocket polygon are more than 129.9um from it.
\<close>

theorem cutouts_contain_conductors_witness:
  "(0 \<le> rad_i default_options \<and> 0 \<le> gap default_options
     \<and> 1 / 1000 < gap default_options
     \<and> (jj_w default_options / 2)\<^sup>2 + (rad_i default_options + 1 / 2000)\<^sup>2
              \<le> ((rad_i default_options + gap default_options) * cos (pi / 64))\<^sup>2)
   \<and> registered_pts round_style ''Qubit'' (make_turtle default_options ''simulate'' empty_host)
          \<subseteq> registered_pts round_style ''Pocket'' (make_turtle default_options ''simulate'' empty_host)
   \<and> circle_polygon (0, 0) (rad_i default_options) 64
        \<union> pts round_style (Translate (rectangle (jj_w default_options) (1 / 1000)) 0 (- rad_i default_options))
      \<subseteq> circle_polygon (0, 0) (rad_i default_options + gap default_options) 64
        - pts round_style (Translate (rectangle (jj_w default_options) (1 / 1000)) 0
            (- (rad_i default_options + gap default_options)))
   \<and> (0 \<le> res_s default_connection_pad \<and> 0 \<le> cpw_width default_connection_pad
        \<and> 0 \<le> cpw_gap default_connection_pad)
   \<and> registered_shape ''res_claw'' (make_claw default_options ''readout'' default_connection_pad empty_host) \<noteq> None
   \<and> registered_shape ''res_claw'' (make_grounded_claw default_options ''readout'' default_connection_pad empty_host) \<noteq> None
   \<and> registered_pts round_style ''res_claw'' (make_claw default_options ''readout'' default_connection_pad empty_host)
          \<subseteq> registered_pts round_style ''poly5'' (make_claw default_options ''readout'' default_connection_pad empty_host)
   \<and> registered_pts round_style ''res_claw'' (make_grounded_claw default_options ''readout'' default_connection_pad empty_host)
          \<subseteq> registered_pts round_style ''poly5'' (make_grounded_claw default_options ''readout'' default_connection_pad empty_host)
   \<and> (0 < taper_height xytip_example \<and> 0 < tip_height xytip_example \<and> 0 < lead_length xytip_example
      \<and> 0 \<le> trace_width xytip_example \<and> 0 \<le> tip_width xytip_example
      \<and> 0 \<le> trace_gap xytip_example \<and> 0 \<le> tip_gap xytip_example)
   \<and> registered_pts round_style ''xy_tip'' (XYTip_make xytip_example empty_host)
          \<subseteq> registered_pts round_style ''pocket'' (XYTip_make xytip_example empty_host)"
proof -
  have c: "3 / 4 \<le> (cos (pi / 64))\<^sup>2"
  proof -
    have "\<bar>sqrt 3 / 2\<bar> \<le> cos (pi / 64)" using cos_pi_64(1) by simp
    then have "(sqrt 3 / 2)\<^sup>2 \<le> (cos (pi / 64))\<^sup>2" by (rule sq_mono)
    then show ?thesis by (simp add: power_divide)
  qed
  have v: "rad_i default_options = 125 / 1000" "gap default_options = 25 / 1000"
    "jj_w default_options = 10 / 1000"
    by (simp_all add: default_options_def)
  have fit: "(jj_w default_options / 2)\<^sup>2 + (rad_i default_options + 1 / 2000)\<^sup>2
              \<le> ((rad_i default_options + gap default_options) * cos (pi / 64))\<^sup>2"
  proof -
    have "(10 / 1000 / 2)\<^sup>2 + (125 / 1000 + 1 / 2000)\<^sup>2 \<le> (9 / 400) * (3 / 4 :: real)"
      by (simp add: power2_eq_square)
    also have "\<dots> \<le> (9 / 400) * (cos (pi / 64))\<^sup>2" using c by (intro mult_left_mono) simp_all
    also have "\<dots> = ((125 / 1000 + 25 / 1000) * cos (pi / 64))\<^sup>2"
      by (simp add: power_mult_distrib power2_eq_square)
    finally show ?thesis unfolding v .
  qed
  have h0: "0 \<le> rad_i default_options \<and> 0 \<le> gap default_options
     \<and> 1 / 1000 < gap default_options
     \<and> (jj_w default_options / 2)\<^sup>2 + (rad_i default_options + 1 / 2000)\<^sup>2
              \<le> ((rad_i default_options + gap default_options) * cos (pi / 64))\<^sup>2"
    using fit by (simp add: v)
  have h1: "0 \<le> rad_i default_options \<and> 0 \<le> gap default_options
     \<and> (''simulate'' = ''simulate'' \<longrightarrow>
          1 / 1000 < gap default_options
          \<and> (jj_w default_options / 2)\<^sup>2 + (rad_i default_options + 1 / 2000)\<^sup>2
              \<le> ((rad_i default_options + gap default_options) * cos (pi / 64))\<^sup>2)"
    using h0 by blast
  have h2: "0 \<le> res_s default_connection_pad \<and> 0 \<le> cpw_width default_connection_pad
        \<and> 0 \<le> cpw_gap default_connection_pad"
    by (simp add: default_connection_pad_def)
  have h4: "0 < taper_height xytip_example \<and> 0 < tip_height xytip_example \<and> 0 < lead_length xytip_example
      \<and> 0 \<le> trace_width xytip_example \<and> 0 \<le> tip_width xytip_example
      \<and> 0 \<le> trace_gap xytip_example \<and> 0 \<le> tip_gap xytip_example"
    by (simp add: xytip_example_def)
  have pad: "res_angle default_connection_pad = 90" "0 < res_arc default_connection_pad"
    "0 \<le> res_ext default_connection_pad" "res_arc default_connection_pad = 50 / 1000"
    by (simp_all add: default_connection_pad_def)
  have r1: "claw_r default_options default_connection_pad = 160 / 1000"
    by (simp add: claw_r_def default_options_def default_connection_pad_def)
  have r2: "grounded_r default_options default_connection_pad = 166 / 1000"
    by (simp add: grounded_r_def default_options_def default_connection_pad_def)
  have a1: "res_arc default_connection_pad < pi * claw_r default_options default_connection_pad"
    unfolding r1 pad(4) using pi_ge_two by linarith
  have a2: "res_arc default_connection_pad < pi * grounded_r default_options default_connection_pad"
    unfolding r2 pad(4) using pi_ge_two by linarith
  have w1: "\<not> ring_crosses (claw_wedge default_options default_connection_pad)"
    using pad(1) _ pad(2) a1 pad(3) by (rule claw_wedge_ok) (simp add: r1)
  have w2: "\<not> ring_crosses (grounded_wedge default_options default_connection_pad)"
    using pad(1) _ pad(2) a2 pad(3) by (rule grounded_wedge_ok) (simp add: r2)
  have n1: "registered_shape ''res_claw'' (make_claw default_options ''readout'' default_connection_pad empty_host) \<noteq> None"
  proof -
    have "claw_r default_options default_connection_pad \<noteq> 0" by (simp add: r1)
    from claw_local_succeeds(1)[OF this w1] obtain a b c cs
      where l: "claw_local default_options default_connection_pad = Inr (a, b, c)" and c: "coords c = Some cs"
      by blast
    show ?thesis unfolding make_claw_def l sum.case register_claw_registered(1)[OF c] by simp
  qed
  have n2: "registered_shape ''res_claw'' (make_grounded_claw default_options ''readout'' default_connection_pad empty_host) \<noteq> None"
  proof -
    have "grounded_r default_options default_connection_pad \<noteq> 0" by (simp add: r2)
    from claw_local_succeeds(2)[OF this w2] obtain a b c cs
      where l: "grounded_local default_options default_connection_pad = Inr (a, b, c)" and c: "coords c = Some cs"
      by blast
    show ?thesis unfolding make_grounded_claw_def l sum.case register_claw_registered(1)[OF c] by simp
  qed
  note t = cutouts_contain_conductors[of default_options "''simulate''" round_style default_connection_pad
      "''readout''" xytip_example]
  note t1 = t[THEN conjunct1, THEN mp, OF h1, THEN conjunct2, THEN conjunct2]
  note c1 = t1[THEN conjunct1]
  note c1p = t1[THEN conjunct2, THEN conjunct1, THEN mp, OF refl]
  note t2 = t[THEN conjunct2, THEN conjunct1, THEN mp, OF h2]
  note c2 = t2[THEN conjunct1]
  note c3 = t2[THEN conjunct2]
  note c4 = t[THEN conjunct2, THEN conjunct2, THEN mp, OF h4, THEN conjunct2, THEN conjunct2]
  show ?thesis using h0 c1 c1p h2 n1 n2 c2 c3 h4 c4 by blast
qed

text \<open>
  In the simulate mode with a gap of 0.2um (all gaps positive), the launch rectangle of
  the island reaches 0.5um beyond the island, out of the pocket disc: the point 125.4um
  south of the centre is in the registered Qubit and not in the registered Pocket. It
  lies in the launch rectangle of the island and in the rectangle cut out of the pocket,
  so the same holds of the 64-sided polygons.
\<close>

theorem pocket_misses_island_counterexample:
  "0 < gap thin_gap
   \<and> (1, 8746 / 10000) \<in> registered_pts round_style ''Qubit'' (TurtleQubit_make thin_gap ''simulate'' empty_host)
   \<and> (1, 8746 / 10000) \<notin> registered_pts round_style ''Pocket'' (TurtleQubit_make thin_gap ''simulate'' empty_host)
   \<and> (0, - (1254 / 10000)) \<in> circle_polygon (0, 0) (rad_i thin_gap) 64
        \<union> pts round_style (Translate (rectangle (jj_w thin_gap) (1 / 1000)) 0 (- rad_i thin_gap))
   \<and> (0, - (1254 / 10000)) \<notin> circle_polygon (0, 0) (rad_i thin_gap + gap thin_gap) 64
        - pts round_style (Translate (rectangle (jj_w thin_gap) (1 / 1000)) 0 (- (rad_i thin_gap + gap thin_gap)))"
proof -
  let ?island = "Union_shape (buffer (Point 0 0) (125 / 1000))
                   (Translate (rectangle (10 / 1000) (1 / 1000)) 0 (- (125 / 1000)))"
  let ?pocket = "Subtract (buffer (Point 0 0) (1252 / 10000))
                   (Translate (rectangle (10 / 1000) (1 / 1000)) 0 (- (1252 / 10000)))"
  have l: "turtle_local thin_gap ''simulate'' =
      (?island, ?pocket, LineString [(0, - (1247 / 10000)), (0, - (1255 / 10000))])"
    by (simp add: turtle_local_def thin_gap_def default_options_def Let_def)
  have v: "rotation thin_gap = 0" "pos_x thin_gap = 1" "pos_y thin_gap = 1" "connection_pads thin_gap = []"
    by (simp_all add: thin_gap_def default_options_def)
  have u: "rad_i thin_gap = 125 / 1000" "jj_w thin_gap = 10 / 1000"
    by (simp_all add: thin_gap_def default_options_def)
  have u': "rad_i thin_gap + gap thin_gap = 1252 / 10000"
    by (simp add: thin_gap_def default_options_def)
  have m: "TurtleQubit_make thin_gap ''simulate'' empty_host = make_turtle thin_gap ''simulate'' empty_host"
    by (simp add: TurtleQubit_make_def v make_turtle_def l rotate_all_def translate_all_def)
  note reg = make_turtle_registered[OF l, unfolded v]
  have d1: "pts round_style (buffer (Point 0 0) (125 / 1000)) = {(x, y). x\<^sup>2 + y\<^sup>2 \<le> (125 / 1000)\<^sup>2}"
    by (rule pts_disc0) simp
  have d2: "pts round_style (buffer (Point 0 0) (1252 / 10000)) = {(x, y). x\<^sup>2 + y\<^sup>2 \<le> (1252 / 10000)\<^sup>2}"
    by (rule pts_disc0) simp
  have i: "(0, - (1254 / 10000)) \<in> pts round_style ?island"
    unfolding pts.simps(6) d1 pts_launch_rectangle by simp
  have o: "(0, - (1254 / 10000)) \<notin> pts round_style ?pocket"
    unfolding pts.simps(8) d2 pts_launch_rectangle by (simp add: power2_eq_square)
  have g: "0 < gap thin_gap" by (simp add: thin_gap_def)
  have q: "(1, 8746 / 10000) \<in> registered_pts round_style ''Qubit'' (TurtleQubit_make thin_gap ''simulate'' empty_host)"
    unfolding m registered_pts_def reg option.case pts.simps(9,10) rotate_pt_zero image_ident mem_translate_iff
    using i by simp
  have k: "(1, 8746 / 10000) \<notin> registered_pts round_style ''Pocket'' (TurtleQubit_make thin_gap ''simulate'' empty_host)"
    unfolding m registered_pts_def reg option.case pts.simps(9,10) rotate_pt_zero image_ident mem_translate_iff
    using o by simp
  have i': "(0, - (1254 / 10000)) \<in> pts round_style (Translate (rectangle (10 / 1000) (1 / 1000)) 0 (- (125 / 1000)))"
    unfolding pts_launch_rectangle by simp
  have o': "(0, - (1254 / 10000)) \<in> pts round_style (Translate (rectangle (10 / 1000) (1 / 1000)) 0 (- (1252 / 10000)))"
    unfolding pts_launch_rectangle by simp
  have q': "(0, - (1254 / 10000)) \<in> circle_polygon (0, 0) (rad_i thin_gap) 64
        \<union> pts round_style (Translate (rectangle (jj_w thin_gap) (1 / 1000)) 0 (- rad_i thin_gap))"
    unfolding u using i' by blast
  have k': "(0, - (1254 / 10000)) \<notin> circle_polygon (0, 0) (rad_i thin_gap + gap thin_gap) 64
        - pts round_style (Translate (rectangle (jj_w thin_gap) (1 / 1000)) 0 (- (rad_i thin_gap + gap thin_gap)))"
    unfolding u' unfolding u using o' by blast
  show ?thesis using g q k q' k' by (intro conjI)
qed

section \<open>The angle of the claw arc\<close>

text \<open>
  Claim C3, as amended. The angular extent \<open>theta\<close> of the wedge that cuts the claw arc
  is the arc length \<open>res_arc\<close> divided by \<open>r\<close>, the radius at which the corners of the
  wedge are placed, and the division raises when \<open>r\<close> is zero. In make_claw \<open>r\<close> is not
  the radius of the circle the arc lies on: it is that radius plus half the stroke width,
  the outer edge of the stroked ring.
\<close>

theorem claw_theta_outer:
  "(claw_local p pc \<noteq> Inl ZeroDivisionError \<longrightarrow>
      claw_r p pc = claw_centre_radius p pc + res_claw_width pc / 2
      \<and> claw_theta p pc * (claw_centre_radius p pc + res_claw_width pc / 2) = res_arc pc)
   \<and> (grounded_local p pc \<noteq> Inl ZeroDivisionError \<longrightarrow>
      grounded_theta p pc * grounded_r p pc = res_arc pc)
   \<and> (claw_r p pc = 0 \<longrightarrow> claw_local p pc = Inl ZeroDivisionError)
   \<and> (grounded_r p pc = 0 \<longrightarrow> grounded_local p pc = Inl ZeroDivisionError)"
proof (intro conjI impI)
  assume "claw_local p pc \<noteq> Inl ZeroDivisionError"
  then have r: "claw_r p pc \<noteq> 0" by (auto simp: claw_local_def)
  show e: "claw_r p pc = claw_centre_radius p pc + res_claw_width pc / 2"
    by (simp add: claw_r_def claw_centre_radius_def)
  show "claw_theta p pc * (claw_centre_radius p pc + res_claw_width pc / 2) = res_arc pc"
    using r unfolding e[symmetric] claw_theta_def by simp
next
  assume "grounded_local p pc \<noteq> Inl ZeroDivisionError"
  then have r: "grounded_r p pc \<noteq> 0" by (auto simp: grounded_local_def)
  show "grounded_theta p pc * grounded_r p pc = res_arc pc"
    using r unfolding grounded_theta_def by simp
next
  assume "claw_r p pc = 0"
  then show "claw_local p pc = Inl ZeroDivisionError" by (simp add: claw_local_def)
next
  assume "grounded_r p pc = 0"
  then show "grounded_local p pc = Inl ZeroDivisionError" by (simp add: grounded_local_def)
qed

theorem claw_theta_outer_witness:
  "claw_local default_options default_connection_pad \<noteq> Inl ZeroDivisionError
   \<and> claw_theta default_options default_connection_pad * (160 / 1000) = 50 / 1000
   \<and> grounded_local default_options default_connection_pad \<noteq> Inl ZeroDivisionError
   \<and> grounded_theta default_options default_connection_pad * grounded_r default_options default_connection_pad
        = 50 / 1000
   \<and> claw_r (default_options\<lparr>rad_i := 0\<rparr>) (default_connection_pad\<lparr>res_dist := 0, res_claw_width := 0\<rparr>) = 0
   \<and> claw_local (default_options\<lparr>rad_i := 0\<rparr>) (default_connection_pad\<lparr>res_dist := 0, res_claw_width := 0\<rparr>)
        = Inl ZeroDivisionError"
proof -
  let ?p0 = "default_options\<lparr>rad_i := 0\<rparr>"
  let ?pc0 = "default_connection_pad\<lparr>res_dist := 0, res_claw_width := 0\<rparr>"
  have a: "claw_local default_options default_connection_pad \<noteq> Inl ZeroDivisionError"
    by (simp add: claw_local_def claw_r_def claw_arm_def translate_all_def rotate_all_def
        default_options_def default_connection_pad_def Let_def)
  have b: "grounded_local default_options default_connection_pad \<noteq> Inl ZeroDivisionError"
    by (simp add: grounded_local_def grounded_r_def grounded_arm_def translate_all_def rotate_all_def
        default_options_def default_connection_pad_def Let_def)
  have c: "claw_centre_radius default_options default_connection_pad
            + res_claw_width default_connection_pad / 2 = 160 / 1000"
    by (simp add: claw_centre_radius_def default_options_def default_connection_pad_def)
  have e: "res_arc default_connection_pad = 50 / 1000"
    by (simp add: default_connection_pad_def)
  have z: "claw_r ?p0 ?pc0 = 0"
    by (simp add: claw_r_def default_options_def default_connection_pad_def)
  note t = claw_theta_outer[of default_options default_connection_pad]
  note t0 = claw_theta_outer[of ?p0 ?pc0]
  from t a have 1: "claw_theta default_options default_connection_pad * (160 / 1000) = 50 / 1000"
    unfolding c e by blast
  from t b have 2: "grounded_theta default_options default_connection_pad
      * grounded_r default_options default_connection_pad = 50 / 1000"
    unfolding e by blast
  from t0 z have 3: "claw_local ?p0 ?pc0 = Inl ZeroDivisionError" by blast
  show ?thesis using a 1 b 2 z 3 by blast
qed

text \<open>
  With the default options the arc lies on the circle of radius 155um, and \<open>theta\<close> is
  50um / 160um, not 50um / 155um.
\<close>

theorem claw_theta_centre_counterexample:
  "claw_theta default_options default_connection_pad
     \<noteq> res_arc default_connection_pad / claw_centre_radius default_options default_connection_pad"
  by (simp add: claw_theta_def claw_r_def claw_centre_radius_def default_options_def default_connection_pad_def)

section \<open>The pin of the launch tip\<close>

text \<open>
  Claim C8. XYTip.make adds exactly one pin to the host's pins. It is named tie, its
  width is \<open>trace_width\<close>, and its anchor line is the vertical segment at the end of the
  lead, from \<open>(lead_length, trace_width / 2)\<close> to \<open>(lead_length, - trace_width / 2)\<close> in
  the local frame, rotated by the orientation and translated to the position.
\<close>

theorem xytip_pin:
  "\<exists>h'. XYTip_make p h = Inr h'
     \<and> pins h' = pins h @
         [\<lparr>pin_name = ''tie'',
           pin_points =
             [translate_pt (pos_x p) (pos_y p) (rotate_pt (orientation p) (0, 0) (lead_length p, trace_width p / 2)),
              translate_pt (pos_x p) (pos_y p) (rotate_pt (orientation p) (0, 0) (lead_length p, - (trace_width p / 2)))],
           pin_width = trace_width p\<rparr>]"
  by (simp add: XYTip_make_def xytip_local_def main_pin_line_def rotate_all_def translate_all_def
      add_pin_def add_qgeometry_def Let_def)

theorem xytip_pin_witness:
  "\<exists>h'. XYTip_make xytip_example empty_host = Inr h'
     \<and> pins h' =
         [\<lparr>pin_name = ''tie'', pin_points = [(10 / 1000, 5 / 1000), (10 / 1000, - (5 / 1000))],
           pin_width = 10 / 1000\<rparr>]"
  using xytip_pin[of xytip_example empty_host]
  by (simp add: xytip_example_def empty_host_def)

section \<open>Rounding never enlarges\<close>

text \<open>
  Claim C10. For all parameter values, the claw rounded by the fillet sequence of
  make_claw is a subset of the shape it rounds, and the rounded tip that XYTip.make
  builds is a subset of the unrounded taper-and-pad polygon.
\<close>

theorem rounding_shrinks:
  "pts sb (round_claw rounding res_claw) \<subseteq> pts sb res_claw
   \<and> (\<exists>line tip pocket. xytip_local q = [line, tip, pocket] \<and> pts sb tip \<subseteq> pts sb (xy_tip_polygon q))"
  by (auto simp: round_claw_def xytip_local_def Let_def)

section \<open>The grounded claw is not rounded\<close>

text \<open>
  Claim C2 says that the grounded flag changes nothing but the isolation gap, and that
  make_grounded_claw rounds the claw as make_claw does. The code does not: with a pad
  that has no isolation gap at all (\<open>res_s\<close> and \<open>res_g_s\<close> zero) and a rounding radius of
  2um, the two variants build the same stroke \<open>S\<close> and the same arm \<open>A\<close>, but the plain
  variant registers the union of the rounded stroke and the arm, and the grounded
  variant the union of the unrounded stroke and the arm.
\<close>

theorem grounded_claw_not_rounded:
  "\<exists>S A. registered_shape ''res_claw'' (TurtleQubit_make (flat_pad False) ''draw'' empty_host)
            = Some (Translate (Rotate (Union_shape (round_claw (2 / 1000) S) A) 0 (0, 0)) 1 1)
       \<and> registered_shape ''res_claw'' (TurtleQubit_make (flat_pad True) ''draw'' empty_host)
            = Some (Translate (Rotate (Union_shape S A) 0 (0, 0)) 1 1)
       \<and> round_claw (2 / 1000) S \<noteq> S"
proof -
  let ?pF = "default_connection_pad\<lparr>res_s := 0, res_g := False, res_g_s := 0\<rparr>"
  let ?pT = "default_connection_pad\<lparr>res_s := 0, res_g := True, res_g_s := 0\<rparr>"
  let ?S = "grounded_stroke (flat_pad True) ?pT"
  let ?A = "Rotate (Translate (rectangle (cpw_width ?pT) (res_ext ?pT + 0.5 * res_claw_width ?pT)) 0
                       (- (rad_i (flat_pad True) + res_dist ?pT + 0.5 * (res_claw_width ?pT + res_ext ?pT)
                           + res_s ?pT + res_g_s ?pT)))
               (res_angle ?pT) (0, 0)"
  have pads: "connection_pads (flat_pad False) = [(''readout'', ?pF)]"
    "connection_pads (flat_pad True) = [(''readout'', ?pT)]"
    by (simp_all add: flat_pad_def)
  have place: "rotation (flat_pad g) = 0" "pos_x (flat_pad g) = 1" "pos_y (flat_pad g) = 1" for g
    by (simp_all add: flat_pad_def default_options_def)
  have g: "\<not> res_g ?pF" "res_g ?pT" by simp_all
  have pad: "res_angle ?pF = 90" "0 < res_arc ?pF" "0 \<le> res_ext ?pF" "res_arc ?pF = 50 / 1000"
    "res_angle ?pT = 90" "0 < res_arc ?pT" "0 \<le> res_ext ?pT" "res_arc ?pT = 50 / 1000"
    "res_claw_rounding ?pF = 2 / 1000"
    by (simp_all add: default_connection_pad_def)
  have r1: "claw_r (flat_pad False) ?pF = 160 / 1000"
    by (simp add: claw_r_def flat_pad_def default_options_def default_connection_pad_def)
  have r2: "grounded_r (flat_pad True) ?pT = 160 / 1000"
    by (simp add: grounded_r_def flat_pad_def default_options_def default_connection_pad_def)
  have a1: "res_arc ?pF < pi * claw_r (flat_pad False) ?pF"
    unfolding r1 pad(4) using pi_ge_two by linarith
  have a2: "res_arc ?pT < pi * grounded_r (flat_pad True) ?pT"
    unfolding r2 pad(8) using pi_ge_two by linarith
  have w1: "\<not> ring_crosses (claw_wedge (flat_pad False) ?pF)"
    using pad(1) _ pad(2) a1 pad(3) by (rule claw_wedge_ok) (simp add: r1)
  have w2: "\<not> ring_crosses (grounded_wedge (flat_pad True) ?pT)"
    using pad(5) _ pad(6) a2 pad(7) by (rule grounded_wedge_ok) (simp add: r2)
  have n1: "claw_r (flat_pad False) ?pF \<noteq> 0" by (simp add: r1)
  have n2: "grounded_r (flat_pad True) ?pT \<noteq> 0" by (simp add: r2)
  have same_stroke: "claw_stroke (flat_pad False) ?pF = ?S"
    by (simp add: claw_stroke_def grounded_stroke_def claw_wedge_def grounded_wedge_def
        claw_r_def grounded_r_def claw_theta_def grounded_theta_def
        claw_centre_radius_def grounded_centre_radius_def
        flat_pad_def default_options_def default_connection_pad_def Let_def)
  have same_arm: "Rotate (Translate (rectangle (cpw_width ?pF) (res_ext ?pF + 0.5 * res_claw_width ?pF)) 0
                       (- (rad_i (flat_pad False) + res_dist ?pF + 0.5 * (res_claw_width ?pF + res_ext ?pF))))
               (res_angle ?pF) (0, 0) = ?A"
    by (simp add: flat_pad_def default_options_def default_connection_pad_def)
  from claw_local_value[OF n1 w1] obtain b c where
    l1: "claw_local (flat_pad False) ?pF = Inr (Union_shape (round_claw (2 / 1000) ?S) ?A, b, c)"
    unfolding same_stroke same_arm pad(9) by blast
  from grounded_local_value[OF n2 w2] obtain b' c' where
    l2: "grounded_local (flat_pad True) ?pT = Inr (Union_shape ?S ?A, b', c')"
    by blast
  have 1: "registered_shape ''res_claw'' (TurtleQubit_make (flat_pad False) ''draw'' empty_host)
            = Some (Translate (Rotate (Union_shape (round_claw (2 / 1000) ?S) ?A) 0 (0, 0)) 1 1)"
    using make_single_claw[OF pads(1) g(1) l1, of "''draw''"] unfolding place .
  have 2: "registered_shape ''res_claw'' (TurtleQubit_make (flat_pad True) ''draw'' empty_host)
            = Some (Translate (Rotate (Union_shape ?S ?A) 0 (0, 0)) 1 1)"
    using make_single_grounded_claw[OF pads(2) g(2) l2, of "''draw''"] unfolding place .
  have 3: "round_claw (2 / 1000) ?S \<noteq> ?S"
    by (simp add: round_claw_def grounded_stroke_def Let_def)
  show ?thesis using 1 2 3 by blast
qed

section \<open>Rotation by zero and translation by zero\<close>

text \<open>
  Claim C7. Rotating a list of shapes by 0 degrees about the origin and translating it by
  (0, 0) changes neither the point set nor the coordinates of any shape. So with a
  rotation of 0 and a position of (0, 0), the shapes make_turtle registers, the shapes
  and the pin line a claw registers, and the shapes and the pin line XYTip.make registers
  are those of the local frame.
\<close>

theorem place_zero_identity:
  "map (pts sb) (translate_all (rotate_all objs 0 (0, 0)) 0 0) = map (pts sb) objs
   \<and> map coords (translate_all (rotate_all objs 0 (0, 0)) 0 0) = map coords objs
   \<and> (rotation p = 0 \<and> pos_x p = 0 \<and> pos_y p = 0 \<longrightarrow>
       (\<exists>h'. make_turtle p render_mode empty_host = Inr h'
          \<and> map (\<lambda>g. pts sb (qg_shape g)) (qgeometry h')
              = (case turtle_local p render_mode of (a, b, c) \<Rightarrow> map (pts sb) [a, b, c]))
       \<and> (coords c = Some cs \<longrightarrow>
           (\<exists>h'. register_claw p name pc (a, b, c) empty_host = Inr h'
              \<and> map (\<lambda>g. pts sb (qg_shape g)) (qgeometry h') = map (pts sb) [a, b]
              \<and> map pin_points (pins h') = [cs])))
   \<and> (orientation q = 0 \<and> pos_x q = 0 \<and> pos_y q = 0 \<longrightarrow>
       (\<exists>h'. XYTip_make q empty_host = Inr h'
          \<and> map (\<lambda>g. pts sb (qg_shape g)) (qgeometry h') = map (pts sb) (tl (xytip_local q))
          \<and> map (\<lambda>n. Some (pin_points n)) (pins h') = [coords (hd (xytip_local q))]))"
proof (intro conjI impI)
  show "map (pts sb) (translate_all (rotate_all objs 0 (0, 0)) 0 0) = map (pts sb) objs"
    by (simp add: translate_all_def rotate_all_def comp_def)
  show "map coords (translate_all (rotate_all objs 0 (0, 0)) 0 0) = map coords objs"
    by (simp add: translate_all_def rotate_all_def comp_def option.map_ident)
next
  assume z: "rotation p = 0 \<and> pos_x p = 0 \<and> pos_y p = 0"
  obtain a' b' c' where loc: "turtle_local p render_mode = (a', b', c')"
    by (cases "turtle_local p render_mode") auto
  show "\<exists>h'. make_turtle p render_mode empty_host = Inr h'
          \<and> map (\<lambda>g. pts sb (qg_shape g)) (qgeometry h')
              = (case turtle_local p render_mode of (a, b, c) \<Rightarrow> map (pts sb) [a, b, c])"
    using z by (simp add: make_turtle_def loc rotate_all_def translate_all_def add_qgeometry_def empty_host_def)
  assume "coords c = Some cs"
  then show "\<exists>h'. register_claw p name pc (a, b, c) empty_host = Inr h'
              \<and> map (\<lambda>g. pts sb (qg_shape g)) (qgeometry h') = map (pts sb) [a, b]
              \<and> map pin_points (pins h') = [cs]"
    using z by (simp add: register_claw_def rotate_all_def translate_all_def add_qgeometry_def
        add_pin_def empty_host_def)
next
  assume z: "orientation q = 0 \<and> pos_x q = 0 \<and> pos_y q = 0"
  then show "\<exists>h'. XYTip_make q empty_host = Inr h'
          \<and> map (\<lambda>g. pts sb (qg_shape g)) (qgeometry h') = map (pts sb) (tl (xytip_local q))
          \<and> map (\<lambda>n. Some (pin_points n)) (pins h') = [coords (hd (xytip_local q))]"
    by (simp add: XYTip_make_def xytip_local_def main_pin_line_def rotate_all_def translate_all_def
        add_qgeometry_def add_pin_def empty_host_def)
qed

theorem place_zero_identity_witness:
  "rotation origin_turtle = 0 \<and> pos_x origin_turtle = 0 \<and> pos_y origin_turtle = 0
   \<and> coords (LineString [(0, 0), (1, 0)]) = Some [(0, 0), (1, 0)]
   \<and> (\<exists>h'. make_turtle origin_turtle ''draw'' empty_host = Inr h'
          \<and> map (\<lambda>g. pts round_style (qg_shape g)) (qgeometry h')
              = (case turtle_local origin_turtle ''draw'' of (a, b, c) \<Rightarrow> map (pts round_style) [a, b, c]))
   \<and> (\<exists>h'. register_claw origin_turtle ''readout'' default_connection_pad
               (Point 0 0, Point 1 1, LineString [(0, 0), (1, 0)]) empty_host = Inr h'
              \<and> map (\<lambda>g. pts round_style (qg_shape g)) (qgeometry h') = map (pts round_style) [Point 0 0, Point 1 1]
              \<and> map pin_points (pins h') = [[(0, 0), (1, 0)]])
   \<and> orientation xytip_example = 0 \<and> pos_x xytip_example = 0 \<and> pos_y xytip_example = 0
   \<and> (\<exists>h'. XYTip_make xytip_example empty_host = Inr h'
          \<and> map (\<lambda>g. pts round_style (qg_shape g)) (qgeometry h') = map (pts round_style) (tl (xytip_local xytip_example))
          \<and> map (\<lambda>n. Some (pin_points n)) (pins h') = [coords (hd (xytip_local xytip_example))])"
proof -
  have a: "rotation origin_turtle = 0 \<and> pos_x origin_turtle = 0 \<and> pos_y origin_turtle = 0"
    by (simp add: origin_turtle_def default_options_def)
  have b: "coords (LineString [(0, 0), (1, 0)]) = Some [(0, 0), (1, 0)]" by simp
  have c: "orientation xytip_example = 0 \<and> pos_x xytip_example = 0 \<and> pos_y xytip_example = 0"
    by (simp add: xytip_example_def)
  from place_zero_identity[of round_style "[]" origin_turtle "''draw''" "LineString [(0, 0), (1, 0)]"
      "[(0, 0), (1, 0)]" "''readout''" default_connection_pad "Point 0 0" "Point 1 1" xytip_example]
    a b c
  show ?thesis by blast
qed

section \<open>The island and the pocket depend on the render mode\<close>

text \<open>
  Claim C9. When the render mode is simulate, the island is the disc of radius \<open>rad_i\<close>
  united with a rectangle of width \<open>jj_w\<close> and height 1um centred on the south point of
  the island, and the pocket is the disc of radius \<open>rad_i + gap\<close> minus the same rectangle
  centred on the south point of the pocket. In every other render mode the island and
  the pocket are the two discs.
\<close>

theorem turtle_render_mode:
  assumes "0 \<le> rad_i p" and "0 \<le> rad_i p + gap p"
  shows "(render_mode = ''simulate'' \<longrightarrow>
           (case turtle_local p render_mode of (island, pocket, jj) \<Rightarrow>
              island = Union_shape (buffer (Point 0 0) (rad_i p))
                         (Translate (rectangle (jj_w p) (1 / 1000)) 0 (- rad_i p))
              \<and> pocket = Subtract (buffer (Point 0 0) (rad_i p + gap p))
                         (Translate (rectangle (jj_w p) (1 / 1000)) 0 (- (rad_i p + gap p)))
              \<and> pts sb island = {(x, y). x\<^sup>2 + y\<^sup>2 \<le> (rad_i p)\<^sup>2}
                   \<union> {(x, y). \<bar>x\<bar> \<le> \<bar>jj_w p\<bar> / 2 \<and> \<bar>y + rad_i p\<bar> \<le> 1 / 2000}
              \<and> pts sb pocket = {(x, y). x\<^sup>2 + y\<^sup>2 \<le> (rad_i p + gap p)\<^sup>2}
                   - {(x, y). \<bar>x\<bar> \<le> \<bar>jj_w p\<bar> / 2 \<and> \<bar>y + (rad_i p + gap p)\<bar> \<le> 1 / 2000}))
       \<and> (render_mode \<noteq> ''simulate'' \<longrightarrow>
           (case turtle_local p render_mode of (island, pocket, jj) \<Rightarrow>
              island = buffer (Point 0 0) (rad_i p)
              \<and> pocket = buffer (Point 0 0) (rad_i p + gap p)
              \<and> pts sb island = {(x, y). x\<^sup>2 + y\<^sup>2 \<le> (rad_i p)\<^sup>2}
              \<and> pts sb pocket = {(x, y). x\<^sup>2 + y\<^sup>2 \<le> (rad_i p + gap p)\<^sup>2}))"
proof (intro conjI impI)
  assume m: "render_mode = ''simulate''"
  have l: "turtle_local p render_mode =
      (Union_shape (buffer (Point 0 0) (rad_i p)) (Translate (rectangle (jj_w p) (1 / 1000)) 0 (- rad_i p)),
       Subtract (buffer (Point 0 0) (rad_i p + gap p)) (Translate (rectangle (jj_w p) (1 / 1000)) 0 (- (rad_i p + gap p))),
       LineString [(0, - (rad_i p + gap p - 0.5 / 1000)), (0, - (rad_i p + 0.5 / 1000))])"
    using m by (simp add: turtle_local_def Let_def)
  show "case turtle_local p render_mode of (island, pocket, jj) \<Rightarrow>
              island = Union_shape (buffer (Point 0 0) (rad_i p))
                         (Translate (rectangle (jj_w p) (1 / 1000)) 0 (- rad_i p))
              \<and> pocket = Subtract (buffer (Point 0 0) (rad_i p + gap p))
                         (Translate (rectangle (jj_w p) (1 / 1000)) 0 (- (rad_i p + gap p)))
              \<and> pts sb island = {(x, y). x\<^sup>2 + y\<^sup>2 \<le> (rad_i p)\<^sup>2}
                   \<union> {(x, y). \<bar>x\<bar> \<le> \<bar>jj_w p\<bar> / 2 \<and> \<bar>y + rad_i p\<bar> \<le> 1 / 2000}
              \<and> pts sb pocket = {(x, y). x\<^sup>2 + y\<^sup>2 \<le> (rad_i p + gap p)\<^sup>2}
                   - {(x, y). \<bar>x\<bar> \<le> \<bar>jj_w p\<bar> / 2 \<and> \<bar>y + (rad_i p + gap p)\<bar> \<le> 1 / 2000}"
    unfolding l using pts_disc0[OF assms(1), of sb] pts_disc0[OF assms(2), of sb]
    using pts_launch_rectangle[of sb "jj_w p" "1 / 1000" "rad_i p"]
      pts_launch_rectangle[of sb "jj_w p" "1 / 1000" "rad_i p + gap p"]
    by (simp del: pts.simps(4,10))
next
  assume m: "render_mode \<noteq> ''simulate''"
  have l: "turtle_local p render_mode =
      (buffer (Point 0 0) (rad_i p), buffer (Point 0 0) (rad_i p + gap p),
       LineString [(0, - (rad_i p + gap p - 0.5 / 1000)), (0, - (rad_i p + 0.5 / 1000))])"
    using m by (simp add: turtle_local_def Let_def)
  show "case turtle_local p render_mode of (island, pocket, jj) \<Rightarrow>
              island = buffer (Point 0 0) (rad_i p)
              \<and> pocket = buffer (Point 0 0) (rad_i p + gap p)
              \<and> pts sb island = {(x, y). x\<^sup>2 + y\<^sup>2 \<le> (rad_i p)\<^sup>2}
              \<and> pts sb pocket = {(x, y). x\<^sup>2 + y\<^sup>2 \<le> (rad_i p + gap p)\<^sup>2}"
    unfolding l using pts_disc0[OF assms(1), of sb] pts_disc0[OF assms(2), of sb] by simp
qed

theorem turtle_render_mode_witness:
  "0 \<le> rad_i default_options \<and> 0 \<le> rad_i default_options + gap default_options
   \<and> (case turtle_local default_options ''simulate'' of (island, pocket, jj) \<Rightarrow>
         island = Union_shape (buffer (Point 0 0) (rad_i default_options))
                    (Translate (rectangle (jj_w default_options) (1 / 1000)) 0 (- rad_i default_options))
         \<and> pocket = Subtract (buffer (Point 0 0) (rad_i default_options + gap default_options))
                    (Translate (rectangle (jj_w default_options) (1 / 1000)) 0
                       (- (rad_i default_options + gap default_options)))
         \<and> pts round_style island = {(x, y). x\<^sup>2 + y\<^sup>2 \<le> (rad_i default_options)\<^sup>2}
              \<union> {(x, y). \<bar>x\<bar> \<le> \<bar>jj_w default_options\<bar> / 2 \<and> \<bar>y + rad_i default_options\<bar> \<le> 1 / 2000}
         \<and> pts round_style pocket = {(x, y). x\<^sup>2 + y\<^sup>2 \<le> (rad_i default_options + gap default_options)\<^sup>2}
              - {(x, y). \<bar>x\<bar> \<le> \<bar>jj_w default_options\<bar> / 2
                     \<and> \<bar>y + (rad_i default_options + gap default_options)\<bar> \<le> 1 / 2000})
   \<and> (case turtle_local default_options ''draw'' of (island, pocket, jj) \<Rightarrow>
         island = buffer (Point 0 0) (rad_i default_options)
         \<and> pocket = buffer (Point 0 0) (rad_i default_options + gap default_options)
         \<and> pts round_style island = {(x, y). x\<^sup>2 + y\<^sup>2 \<le> (rad_i default_options)\<^sup>2}
         \<and> pts round_style pocket = {(x, y). x\<^sup>2 + y\<^sup>2 \<le> (rad_i default_options + gap default_options)\<^sup>2})"
proof -
  have a: "0 \<le> rad_i default_options" and b: "0 \<le> rad_i default_options + gap default_options"
    by (simp_all add: default_options_def)
  have s: "''simulate'' = ''simulate''" and d: "''draw'' \<noteq> ''simulate''" by simp_all
  note 1 = turtle_render_mode[OF a b, of "''simulate''" round_style, THEN conjunct1, THEN mp, OF s]
  note 2 = turtle_render_mode[OF a b, of "''draw''" round_style, THEN conjunct2, THEN mp, OF d]
  show ?thesis using a b 1 2 by (intro conjI)
qed

section \<open>How the launch tip is rounded\<close>

text \<open>
  Claim C6, as amended. XYTip.make rounds the two outer corners of the pad by a
  subtraction: at the top and at the bottom corner it removes the \<open>tip_fillet\<close> by
  \<open>tip_fillet\<close> corner square without the disc of radius \<open>tip_fillet\<close> centred on the inner
  corner of that square. When \<open>tip_fillet\<close> is less than half of \<open>tip_width\<close> and at most
  half of \<open>tip_height\<close>, this rounds those corners as the grow-then-shrink fillet sequence
  of make_claw applied to the tip polygon does: of either corner square, both keep
  exactly the points within \<open>tip_fillet\<close> of the square's inner corner.
\<close>

theorem xy_tip_corners_filleted:
  "0 < tip_fillet q \<and> tip_fillet q < tip_width q / 2 \<and> 2 * tip_fillet q \<le> tip_height q
   \<and> 0 < taper_height q \<and> 0 < lead_length q \<and> 0 \<le> trace_width q
   \<and> - (tip_height q + taper_height q) \<le> x \<and> x \<le> - (tip_height q + taper_height q) + tip_fillet q
   \<and> tip_width q / 2 - tip_fillet q \<le> \<bar>y\<bar> \<and> \<bar>y\<bar> \<le> tip_width q / 2
   \<longrightarrow> hd (tl (xytip_local q)) = Subtract (xy_tip_polygon q) (round_tip_negative q)
     \<and> ((x, y) \<in> pts sb (hd (tl (xytip_local q)))
          \<longleftrightarrow> (x + (tip_height q + taper_height q) - tip_fillet q)\<^sup>2
                + (\<bar>y\<bar> - tip_width q / 2 + tip_fillet q)\<^sup>2 \<le> (tip_fillet q)\<^sup>2)
     \<and> ((x, y) \<in> pts sb (round_claw (tip_fillet q) (xy_tip_polygon q))
          \<longleftrightarrow> (x + (tip_height q + taper_height q) - tip_fillet q)\<^sup>2
                + (\<bar>y\<bar> - tip_width q / 2 + tip_fillet q)\<^sup>2 \<le> (tip_fillet q)\<^sup>2)"
proof (intro impI)
  let ?E = "tip_height q + taper_height q"
  let ?b = "tip_width q / 2"
  let ?f = "tip_fillet q"
  let ?A = "taper_region (trace_width q / 2) ?b (taper_height q) ?E (lead_length q)"
  assume h: "0 < tip_fillet q \<and> tip_fillet q < tip_width q / 2 \<and> 2 * tip_fillet q \<le> tip_height q
   \<and> 0 < taper_height q \<and> 0 < lead_length q \<and> 0 \<le> trace_width q
   \<and> - (tip_height q + taper_height q) \<le> x \<and> x \<le> - (tip_height q + taper_height q) + tip_fillet q
   \<and> tip_width q / 2 - tip_fillet q \<le> \<bar>y\<bar> \<and> \<bar>y\<bar> \<le> tip_width q / 2"
  then have f: "0 < ?f" "?f < ?b" "2 * ?f \<le> tip_height q" and T: "0 < taper_height q"
    and L: "0 < lead_length q" and a: "0 \<le> trace_width q"
    and p: "- ?E \<le> x" "x \<le> - ?E + ?f" "?b - ?f \<le> \<bar>y\<bar>" "\<bar>y\<bar> \<le> ?b"
    by blast+
  have f0: "0 \<le> ?f" using f by simp
  have fE: "2 * ?f \<le> ?E - taper_height q" using f by simp
  have A: "pts sb (xy_tip_polygon q) = ?A"
    unfolding xy_tip_polygon_tapered using T f L a by (intro pts_tapered) simp_all
  have pA: "(x, y) \<in> ?A"
  proof -
    have "x \<le> - taper_height q" using p f by linarith
    then show ?thesis using p by (simp add: taper_region_def)
  qed
  have tip: "hd (tl (xytip_local q)) = Subtract (xy_tip_polygon q) (round_tip_negative q)"
    by (simp add: xytip_local_def Let_def)
  have neg: "(x, y) \<in> pts sb (round_tip_negative q)
             \<longleftrightarrow> \<not> (x + ?E - ?f)\<^sup>2 + (\<bar>y\<bar> - ?b + ?f)\<^sup>2 \<le> ?f\<^sup>2"
  proof (cases "0 \<le> y")
    case True
    then have e: "\<bar>y\<bar> = y" by simp
    have top: "?b - ?f \<le> y" "y \<le> ?b" using p e by simp_all
    have bot: "\<not> y \<le> - ?b + ?f" using top f by linarith
    show ?thesis unfolding pts_round_tip_negative[OF f0] e using p(1,2) top bot by simp
  next
    case False
    then have e: "\<bar>y\<bar> = - y" by simp
    have bot: "- ?b \<le> y" "y \<le> - ?b + ?f" using p e by linarith+
    have top: "\<not> ?b - ?f \<le> y" using bot f by linarith
    have s: "(- y - ?b + ?f)\<^sup>2 = (y + ?b - ?f)\<^sup>2"
    proof -
      have "- y - ?b + ?f = - (y + ?b - ?f)" by simp
      then show ?thesis by (simp only: power2_minus)
    qed
    show ?thesis unfolding pts_round_tip_negative[OF f0] e s using p(1,2) top bot by simp
  qed
  show "hd (tl (xytip_local q)) = Subtract (xy_tip_polygon q) (round_tip_negative q)
     \<and> ((x, y) \<in> pts sb (hd (tl (xytip_local q)))
          \<longleftrightarrow> (x + ?E - ?f)\<^sup>2 + (\<bar>y\<bar> - ?b + ?f)\<^sup>2 \<le> ?f\<^sup>2)
     \<and> ((x, y) \<in> pts sb (round_claw ?f (xy_tip_polygon q))
          \<longleftrightarrow> (x + ?E - ?f)\<^sup>2 + (\<bar>y\<bar> - ?b + ?f)\<^sup>2 \<le> ?f\<^sup>2)"
  proof (intro conjI)
    show "hd (tl (xytip_local q)) = Subtract (xy_tip_polygon q) (round_tip_negative q)" by (rule tip)
    show "(x, y) \<in> pts sb (hd (tl (xytip_local q)))
          \<longleftrightarrow> (x + ?E - ?f)\<^sup>2 + (\<bar>y\<bar> - ?b + ?f)\<^sup>2 \<le> ?f\<^sup>2"
      unfolding tip pts.simps(8) A using pA neg by blast
    show "(x, y) \<in> pts sb (round_claw ?f (xy_tip_polygon q))
          \<longleftrightarrow> (x + ?E - ?f)\<^sup>2 + (\<bar>y\<bar> - ?b + ?f)\<^sup>2 \<le> ?f\<^sup>2"
      unfolding pts_round_claw A using pA taper_corner[OF f(1,2) fE T p] by blast
  qed
qed

text \<open>
  With the example options, the point 0.1um inside the top outer corner of the pad is
  removed by both, and the point 0.5um inside it is kept by both.
\<close>

theorem xy_tip_corners_filleted_witness:
  "(0 < tip_fillet xytip_example \<and> tip_fillet xytip_example < tip_width xytip_example / 2
     \<and> 2 * tip_fillet xytip_example \<le> tip_height xytip_example
     \<and> 0 < taper_height xytip_example \<and> 0 < lead_length xytip_example \<and> 0 \<le> trace_width xytip_example)
   \<and> (- (1499 / 10000), 24 / 10000) \<notin> pts round_style (hd (tl (xytip_local xytip_example)))
   \<and> (- (1499 / 10000), 24 / 10000)
        \<notin> pts round_style (round_claw (tip_fillet xytip_example) (xy_tip_polygon xytip_example))
   \<and> (- (1495 / 10000), - (20 / 10000)) \<in> pts round_style (hd (tl (xytip_local xytip_example)))
   \<and> (- (1495 / 10000), - (20 / 10000))
        \<in> pts round_style (round_claw (tip_fillet xytip_example) (xy_tip_polygon xytip_example))"
proof -
  have v: "tip_fillet xytip_example = 1 / 1000" "tip_width xytip_example = 5 / 1000"
    "tip_height xytip_example = 100 / 1000" "taper_height xytip_example = 50 / 1000"
    "lead_length xytip_example = 10 / 1000" "trace_width xytip_example = 10 / 1000"
    by (simp_all add: xytip_example_def)
  have h0: "0 < tip_fillet xytip_example \<and> tip_fillet xytip_example < tip_width xytip_example / 2
     \<and> 2 * tip_fillet xytip_example \<le> tip_height xytip_example
     \<and> 0 < taper_height xytip_example \<and> 0 < lead_length xytip_example \<and> 0 \<le> trace_width xytip_example"
    by (simp add: v)
  have h1: "0 < tip_fillet xytip_example \<and> tip_fillet xytip_example < tip_width xytip_example / 2
     \<and> 2 * tip_fillet xytip_example \<le> tip_height xytip_example
     \<and> 0 < taper_height xytip_example \<and> 0 < lead_length xytip_example \<and> 0 \<le> trace_width xytip_example
     \<and> - (tip_height xytip_example + taper_height xytip_example) \<le> - (1499 / 10000)
     \<and> - (1499 / 10000) \<le> - (tip_height xytip_example + taper_height xytip_example) + tip_fillet xytip_example
     \<and> tip_width xytip_example / 2 - tip_fillet xytip_example \<le> \<bar>24 / 10000\<bar>
     \<and> \<bar>24 / 10000\<bar> \<le> tip_width xytip_example / 2"
    by (simp add: v)
  have h2: "0 < tip_fillet xytip_example \<and> tip_fillet xytip_example < tip_width xytip_example / 2
     \<and> 2 * tip_fillet xytip_example \<le> tip_height xytip_example
     \<and> 0 < taper_height xytip_example \<and> 0 < lead_length xytip_example \<and> 0 \<le> trace_width xytip_example
     \<and> - (tip_height xytip_example + taper_height xytip_example) \<le> - (1495 / 10000)
     \<and> - (1495 / 10000) \<le> - (tip_height xytip_example + taper_height xytip_example) + tip_fillet xytip_example
     \<and> tip_width xytip_example / 2 - tip_fillet xytip_example \<le> \<bar>- (20 / 10000)\<bar>
     \<and> \<bar>- (20 / 10000)\<bar> \<le> tip_width xytip_example / 2"
    by (simp add: v)
  have far: "\<not> (- (1499 / 10000) + (tip_height xytip_example + taper_height xytip_example) - tip_fillet xytip_example)\<^sup>2
                + (\<bar>24 / 10000\<bar> - tip_width xytip_example / 2 + tip_fillet xytip_example)\<^sup>2
              \<le> (tip_fillet xytip_example)\<^sup>2"
    by (simp add: v power2_eq_square)
  have near: "(- (1495 / 10000) + (tip_height xytip_example + taper_height xytip_example) - tip_fillet xytip_example)\<^sup>2
                + (\<bar>- (20 / 10000)\<bar> - tip_width xytip_example / 2 + tip_fillet xytip_example)\<^sup>2
              \<le> (tip_fillet xytip_example)\<^sup>2"
    by (simp add: v power2_eq_square)
  note t1 = xy_tip_corners_filleted[of xytip_example "- (1499 / 10000)" "24 / 10000" round_style, THEN mp, OF h1]
  note t2 = xy_tip_corners_filleted[of xytip_example "- (1495 / 10000)" "- (20 / 10000)" round_style, THEN mp, OF h2]
  have a1: "(- (1499 / 10000), 24 / 10000) \<notin> pts round_style (hd (tl (xytip_local xytip_example)))"
    using t1[THEN conjunct2, THEN conjunct1] far by blast
  have a2: "(- (1499 / 10000), 24 / 10000)
        \<notin> pts round_style (round_claw (tip_fillet xytip_example) (xy_tip_polygon xytip_example))"
    using t1[THEN conjunct2, THEN conjunct2] far by blast
  have b1: "(- (1495 / 10000), - (20 / 10000)) \<in> pts round_style (hd (tl (xytip_local xytip_example)))"
    using t2[THEN conjunct2, THEN conjunct1] near by blast
  have b2: "(- (1495 / 10000), - (20 / 10000))
        \<in> pts round_style (round_claw (tip_fillet xytip_example) (xy_tip_polygon xytip_example))"
    using t2[THEN conjunct2, THEN conjunct2] near by blast
  show ?thesis using h0 a1 a2 b1 b2 by blast
qed

text \<open>
  The claim asks only that \<open>tip_fillet\<close> be less than half of \<open>tip_width\<close>. That is not
  enough: on a pad 10um wide and 0.3um high (on a 0.2um taper and a 0.2um trace) with a
  fillet of 1um, no disc of radius 1um fits in the pad, and the fillet sequence of make_claw
  removes the point 0.25um from the pad's outer edge and 0.5um below its top edge, in the
  top outer corner square of the pad, which XYTip.make keeps.
\<close>

theorem short_pad_corner_counterexample:
  "tip_fillet short_pad_tip < tip_width short_pad_tip / 2
   \<and> - (tip_height short_pad_tip + taper_height short_pad_tip) \<le> - (25 / 100000)
   \<and> - (25 / 100000) \<le> - (tip_height short_pad_tip + taper_height short_pad_tip) + tip_fillet short_pad_tip
   \<and> tip_width short_pad_tip / 2 - tip_fillet short_pad_tip \<le> 45 / 10000
   \<and> 45 / 10000 \<le> tip_width short_pad_tip / 2
   \<and> (- (25 / 100000), 45 / 10000) \<in> pts round_style (hd (tl (xytip_local short_pad_tip)))
   \<and> (- (25 / 100000), 45 / 10000)
        \<notin> pts round_style (round_claw (tip_fillet short_pad_tip) (xy_tip_polygon short_pad_tip))"
proof -
  let ?A = "taper_region (1 / 10000) (5 / 1000) (2 / 10000) (5 / 10000) (10 / 1000)"
  let ?p = "(- (25 / 100000), 45 / 10000) :: point"
  have v: "tip_fillet short_pad_tip = 1 / 1000" "tip_width short_pad_tip = 10 / 1000"
    "tip_height short_pad_tip = 3 / 10000" "taper_height short_pad_tip = 2 / 10000"
    "lead_length short_pad_tip = 10 / 1000" "trace_width short_pad_tip = 2 / 10000"
    by (simp_all add: short_pad_tip_def)
  have h: "tip_fillet short_pad_tip < tip_width short_pad_tip / 2
   \<and> - (tip_height short_pad_tip + taper_height short_pad_tip) \<le> - (25 / 100000)
   \<and> - (25 / 100000) \<le> - (tip_height short_pad_tip + taper_height short_pad_tip) + tip_fillet short_pad_tip
   \<and> tip_width short_pad_tip / 2 - tip_fillet short_pad_tip \<le> 45 / 10000
   \<and> 45 / 10000 \<le> tip_width short_pad_tip / 2"
    by (simp add: v)
  have A: "pts round_style (xy_tip_polygon short_pad_tip) = ?A"
  proof -
    have e: "xy_tip_polygon short_pad_tip = Polygon (tapered (1 / 10000) (5 / 1000) (2 / 10000) (5 / 10000) (10 / 1000))"
      by (simp add: xy_tip_polygon_tapered v)
    show ?thesis unfolding e by (rule pts_tapered) simp_all
  qed
  have pA: "?p \<in> ?A" unfolding taper_region_def by simp
  have f0: "0 \<le> tip_fillet short_pad_tip" by (simp add: v)
  have neg: "?p \<notin> pts round_style (round_tip_negative short_pad_tip)"
    unfolding pts_round_tip_negative[OF f0] v by (simp add: power2_eq_square)
  have tip: "hd (tl (xytip_local short_pad_tip))
               = Subtract (xy_tip_polygon short_pad_tip) (round_tip_negative short_pad_tip)"
    by (simp add: xytip_local_def Let_def)
  have 1: "?p \<in> pts round_style (hd (tl (xytip_local short_pad_tip)))"
    unfolding tip pts.simps(8) A using pA neg by blast
  have "?p \<notin> dilate (dilate ?A (2 * (1 / 1000)) - dilate (dilate ?A (1 / 1000) - ?A) (1 / 1000)) (1 / 1000)"
  proof (rule opening_removes)
    show "(0::real) \<le> 1 / 1000" by simp
    show "?p \<in> ?A" by (rule pA)
    fix q :: point
    obtain qx qy where q: "q = (qx, qy)" by (cases q)
    assume qA: "q \<in> ?A" and d: "d2 ?p q \<le> (1 / 1000)\<^sup>2"
    have n: "\<bar>- (25 / 100000) - qx\<bar> \<le> 1 / 1000" "\<bar>45 / 10000 - qy\<bar> \<le> 1 / 1000"
      using d2_near[OF d[unfolded q]] by simp_all
    have hi: "35 / 10000 \<le> qy" using n(2) by linarith
    have x: "qx \<le> 0"
    proof (rule ccontr)
      assume "\<not> qx \<le> 0"
      then have "\<bar>qy\<bar> \<le> 1 / 10000" using qA unfolding q taper_region_def by simp
      then show False using hi by linarith
    qed
    have o: "(qx - 1 / 1000, qy) \<notin> ?A" unfolding taper_region_def using x by simp
    have "d2 (qx, qy) (qx - 1 / 1000, qy) \<le> (1 / 1000)\<^sup>2" by (simp add: d2_def)
    then show "\<exists>s. s \<notin> ?A \<and> d2 q s \<le> (1 / 1000)\<^sup>2" unfolding q using o by blast
  qed
  then have 2: "?p \<notin> pts round_style (round_claw (tip_fillet short_pad_tip) (xy_tip_polygon short_pad_tip))"
    unfolding pts_round_claw A v(1) by blast
  show ?thesis using h 1 2 by blast
qed

end
